theory Spec2Isabelle
  imports Complex_Main
begin

section \<open>C arithmetic used by the sketches\<close>

text \<open>
  The repository holds two Arduino sketches for the ESP32: the slot-check sketch
  (\<open>save_temperature_humidity_supabase.ino\<close>, Strategy A) and the phase-aligned sketch
  (the second source file, with \<open>beginDeepSleep\<close>, Strategy B).
  \<open>int\<close> and \<open>time_t\<close> values are modelled as mathematical integers; their division and
  remainder truncate towards zero, which is written out here. Signed overflow is undefined
  in C and has no value to model: the bounds proved below keep every intermediate result
  within a few thousand of the inputs. \<open>uint64_t\<close> values are integers reduced modulo
  \<open>2 ^ 64\<close> at each conversion and operation.
\<close>

definition c_div :: "int \<Rightarrow> int \<Rightarrow> int" where
  "c_div a b = sgn a * sgn b * (\<bar>a\<bar> div \<bar>b\<bar>)"

definition c_mod :: "int \<Rightarrow> int \<Rightarrow> int" where
  "c_mod a b = a - b * c_div a b"

definition u64 :: "int \<Rightarrow> int" where
  "u64 x = x mod 2 ^ 64"

section \<open>Single-precision arithmetic\<close>

text \<open>
  \<open>beginDeepSleep\<close> computes with \<open>float\<close>: \<open>offsetSeconds / (float)desiredSleepSeconds >
  0.95f\<close> and \<open>sleepDuration *= 1.0015f\<close>. A \<open>float\<close> value is modelled by the rational it
  denotes, and every operation rounds the exact result to the nearest binary32 value, ties
  to even: 24 significant bits, the unit in the last place being \<open>2 ^ (e - 23)\<close> for a
  value in \<open>[2 ^ e, 2 ^ (e + 1))\<close>, with \<open>e\<close> no smaller than \<open>-126\<close> (below that the spacing
  is the subnormal one). The exponent scan stops at 127: overflow to infinity needs a
  magnitude of \<open>2 ^ 128\<close>, which no operand derived from a 64-bit integer reaches.
\<close>

definition pow2 :: "int \<Rightarrow> rat" where
  "pow2 e = (if 0 \<le> e then 2 ^ nat e else 1 / 2 ^ nat (- e))"

fun f32_scan :: "nat \<Rightarrow> int \<Rightarrow> rat \<Rightarrow> int" where
  "f32_scan 0 e r = e"
| "f32_scan (Suc k) e r = (if r < pow2 (e + 1) then e else f32_scan k (e + 1) r)"

definition f32_exponent :: "rat \<Rightarrow> int" where
  "f32_exponent r = f32_scan 253 (- 126) \<bar>r\<bar>"

definition round_half_even :: "rat \<Rightarrow> int" where
  "round_half_even y =
     (let f = \<lfloor>y\<rfloor>; d = y - of_int f
      in if d < 1 / 2 then f
         else if 1 / 2 < d then f + 1
         else if even f then f else f + 1)"

definition f32_round :: "rat \<Rightarrow> rat" where
  "f32_round r =
     (let ulp = pow2 (f32_exponent r - 23)
      in of_int (round_half_even (r / ulp)) * ulp)"

definition f32_of_int :: "int \<Rightarrow> rat" where
  "f32_of_int i = f32_round (of_int i)"

definition f32_div :: "rat \<Rightarrow> rat \<Rightarrow> rat" where
  "f32_div a b = f32_round (a / b)"

definition f32_mul :: "rat \<Rightarrow> rat \<Rightarrow> rat" where
  "f32_mul a b = f32_round (a * b)"

text \<open>Conversion of a \<open>float\<close> to \<open>uint64_t\<close> discards the fraction.\<close>

definition u64_of_f32 :: "rat \<Rightarrow> int" where
  "u64_of_f32 f = u64 (if 0 \<le> f then \<lfloor>f\<rfloor> else \<lceil>f\<rceil>)"

section \<open>The device and its environment\<close>

text \<open>
  \<open>struct tm\<close> of the C library. \<open>time\<close>, \<open>localtime_r\<close> and \<open>mktime\<close> belong to the C
  library, and the WiFi, SNTP, sensor and HTTP calls to the Arduino core and its
  libraries: what they return is the environment of a wake cycle. The clock of the device
  (\<open>millis()\<close>) is the field \<open>uptime\<close>; in the model it advances in \<open>delay\<close> only, and the
  environment is read at the current uptime. \<open>millis()\<close> is a 32-bit count of milliseconds
  that restarts at every wake; a cycle lasts seconds, so it is a natural number here.
\<close>

record tm =
  tm_sec :: int
  tm_min :: int
  tm_hour :: int
  tm_mday :: int
  tm_mon :: int
  tm_year :: int
  tm_wday :: int
  tm_yday :: int
  tm_isdst :: int

record env =
  wifi_connected_at :: "nat \<Rightarrow> bool"
  epoch_at :: "nat \<Rightarrow> int"
  localtime_r :: "int \<Rightarrow> tm"
  mktime :: "tm \<Rightarrow> int"
  sntp_reset_at :: "nat \<Rightarrow> bool"
  bme_begin :: bool
  http_begin :: bool
  http_POST :: int

text \<open>
  \<open>wifi_connected_at e t\<close>: \<open>WiFi.status() == WL_CONNECTED\<close> at uptime \<open>t\<close>;
  \<open>epoch_at e t\<close>: the value \<open>time(&now)\<close> stores at uptime \<open>t\<close>;
  \<open>sntp_reset_at e t\<close>: \<open>esp_sntp_get_sync_status() == SNTP_SYNC_STATUS_RESET\<close> at uptime \<open>t\<close>;
  \<open>bme_begin e\<close>: the result of \<open>bme.begin(BME_ADDRESS)\<close>; \<open>http_begin e\<close> and \<open>http_POST e\<close>:
  the results of \<open>http.begin(...)\<close> and \<open>http.POST(payload)\<close>.
\<close>

datatype event =
    PowerPin bool
  | BmeBegin
  | ReadTemperature
  | ReadHumidity
  | HttpPost
  | PostFailed int
  | PostSuccess int
  | KillWiFi
  | Print string
  | TimerWakeup int
  | DeepSleepStart

text \<open>
  The events of a wake cycle that the properties below speak of.
  \<open>PowerPin v\<close> is \<open>digitalWrite(PIN_BME_PWR, v)\<close>; \<open>PostFailed c\<close> and \<open>PostSuccess c\<close> are the
  two diagnostic lines of \<open>postToSupabase\<close>; \<open>TimerWakeup us\<close> is
  \<open>esp_sleep_enable_timer_wakeup(us)\<close> and \<open>DeepSleepStart\<close> is \<open>esp_deep_sleep_start()\<close>,
  which does not return: a wake cycle ends there.
\<close>

text \<open>
  The state of the device within a cycle: the uptime, the level of \<open>PIN_BME_PWR\<close>, the
  \<open>timeInfo\<close> structure that \<open>setup()\<close> of the phase-aligned sketch passes by pointer (the
  slot-check sketch has none), and the events so far.
\<close>

record device =
  uptime :: nat
  pwr_pin :: bool
  timeInfo :: tm
  trace :: "event list"

definition zero_tm :: tm where
  "zero_tm = \<lparr>tm_sec = 0, tm_min = 0, tm_hour = 0, tm_mday = 0, tm_mon = 0, tm_year = 0,
              tm_wday = 0, tm_yday = 0, tm_isdst = 0\<rparr>"

definition boot :: device where
  "boot = \<lparr>uptime = 0, pwr_pin = False, timeInfo = zero_tm, trace = []\<rparr>"

definition delay :: "nat \<Rightarrow> device \<Rightarrow> device" where
  "delay n d = d\<lparr>uptime := uptime d + n\<rparr>"

definition emit :: "event \<Rightarrow> device \<Rightarrow> device" where
  "emit ev d = d\<lparr>trace := trace d @ [ev]\<rparr>"

definition digitalWrite_PWR :: "bool \<Rightarrow> device \<Rightarrow> device" where
  "digitalWrite_PWR level d = emit (PowerPin level) (d\<lparr>pwr_pin := level\<rparr>)"

section \<open>Functions common to both sketches\<close>

definition WIFI_CONNECT_TIMEOUT_MS :: nat where
  "WIFI_CONNECT_TIMEOUT_MS = 15000"

text \<open>
  \<^verbatim>\<open>uint32_t start = millis();
  while (WiFi.status() != WL_CONNECTED &&
         (millis() - start) < WIFI_CONNECT_TIMEOUT_MS)
  {
    delay(250);
  }
  if (WiFi.status() != WL_CONNECTED) { ...; return false; }
  return true;\<close>
\<close>

function connectWiFi_wait :: "env \<Rightarrow> nat \<Rightarrow> device \<Rightarrow> device" where
  "connectWiFi_wait e start d =
     (if \<not> wifi_connected_at e (uptime d) \<and> uptime d - start < WIFI_CONNECT_TIMEOUT_MS
      then connectWiFi_wait e start (delay 250 d)
      else d)"
  by pat_completeness auto
termination
  by (relation "measure (\<lambda>(e, start, d). start + WIFI_CONNECT_TIMEOUT_MS - uptime d)")
     (auto simp: delay_def WIFI_CONNECT_TIMEOUT_MS_def)

definition connectWiFi :: "env \<Rightarrow> device \<Rightarrow> bool \<times> device" where
  "connectWiFi e d =
     (let start = uptime d;
          d = connectWiFi_wait e start d
      in if \<not> wifi_connected_at e (uptime d)
         then (False, emit (Print ''[WIFI] Failed to connect.'') d)
         else (True, d))"

text \<open>
  \<^verbatim>\<open>static bool initBME()
  {
    pinMode(PIN_BME_PWR, OUTPUT);
    digitalWrite(PIN_BME_PWR, HIGH);
    delay(50);
    Wire.begin(PIN_BME_SDA, PIN_BME_SCL);
    if (!bme.begin(BME_ADDRESS)) { ...; return false; }
    return true;
  }
  static void powerDownBME() { digitalWrite(PIN_BME_PWR, LOW); }\<close>
\<close>

definition initBME :: "env \<Rightarrow> device \<Rightarrow> bool \<times> device" where
  "initBME e d =
     (let d = digitalWrite_PWR True d;
          d = delay 50 d;
          d = emit BmeBegin d
      in if \<not> bme_begin e
         then (False, emit (Print ''[BME] BME280 not found at given address.'') d)
         else (True, d))"

definition powerDownBME :: "device \<Rightarrow> device" where
  "powerDownBME d = digitalWrite_PWR False d"

definition readSensor :: "device \<Rightarrow> device" where
  "readSensor d = emit ReadHumidity (emit ReadTemperature d)"

text \<open>
  \<open>postToSupabase\<close>, from \<open>http.begin\<close> on (the payload string is not modelled; the
  phase-aligned sketch adds a timestamp to it and is otherwise the same):
  \<^verbatim>\<open>if (!http.begin(client, SUPABASE_HOST, SUPABASE_PORT, SUPABASE_PATH))
  {
    return -1;
  }
  ...
  int code = http.POST(payload);
  if (code <= 0 || (code != 200 && code != 201 && code != 204))
  {
    Serial.printf("[HTTP] POST failed. Code=%d\n", code);
    ...
  }
  else
  {
    Serial.printf("[HTTP] POST success. Code=%d\n", code);
  }
  http.end();
  return code;\<close>
\<close>

definition postToSupabase :: "env \<Rightarrow> device \<Rightarrow> int \<times> device" where
  "postToSupabase e d =
     (if \<not> http_begin e
      then (- 1, emit (Print ''[HTTP] http.begin() failed.'') d)
      else
        let code = http_POST e;
            d = emit HttpPost d
        in if code \<le> 0 \<or> (code \<noteq> 200 \<and> code \<noteq> 201 \<and> code \<noteq> 204)
           then (code, emit (PostFailed code) d)
           else (code, emit (PostSuccess code) d))"

section \<open>The slot-check sketch (Strategy A)\<close>

text \<open>
  \<^verbatim>\<open>static void deepSleepSeconds(uint64_t seconds)
  {
    if (seconds < 10) seconds = 10;
    esp_sleep_enable_timer_wakeup(seconds * 1000000ULL);
    ...
    esp_deep_sleep_start();
  }\<close>
\<close>

definition deepSleepSeconds :: "int \<Rightarrow> device \<Rightarrow> device" where
  "deepSleepSeconds seconds d =
     (let seconds = (if seconds < 10 then 10 else seconds)
      in emit DeepSleepStart (emit (TimerWakeup (u64 (seconds * 1000000))) d))"

text \<open>
  \<^verbatim>\<open>for (int i = 0; i < 40; i++)
  {
    time(&now);
    if (now > 1700000000) // sanity threshold
    {
      ...
      return true;
    }
    delay(250);
  }
  Serial.println("[TIME] NTP sync failed.");
  return false;\<close>
  The first argument of \<open>syncTime_poll\<close> is the number of iterations left, \<open>40 - i\<close>.
\<close>

fun syncTime_poll :: "nat \<Rightarrow> env \<Rightarrow> device \<Rightarrow> bool \<times> device" where
  "syncTime_poll 0 e d = (False, emit (Print ''[TIME] NTP sync failed.'') d)"
| "syncTime_poll (Suc n) e d =
     (let now = epoch_at e (uptime d)
      in if now > 1700000000 then (True, d)
         else syncTime_poll n e (delay 250 d))"

definition syncTime :: "env \<Rightarrow> device \<Rightarrow> bool \<times> device" where
  "syncTime e d = syncTime_poll 40 e d"

text \<open>
  \<^verbatim>\<open>static uint64_t secondsUntilNextHalfHourSlot(time_t nowLocal)
  {
    struct tm t;
    localtime_r(&nowLocal, &t);
    int targetMin = 0;
    int addHours = 0;
    if (t.tm_min < 30) { targetMin = 30; }
    else { targetMin = 0; addHours = 1; }
    struct tm target = t;
    target.tm_sec = 0;
    target.tm_min = targetMin;
    target.tm_hour = t.tm_hour + addHours;
    time_t targetEpoch = mktime(&target);
    if (targetEpoch <= nowLocal) targetEpoch = nowLocal + 60;
    return (uint64_t)(targetEpoch - nowLocal);
  }\<close>
\<close>

definition secondsUntilNextHalfHourSlot :: "env \<Rightarrow> int \<Rightarrow> int" where
  "secondsUntilNextHalfHourSlot e nowLocal =
     (let t = localtime_r e nowLocal;
          targetMin = (if tm_min t < 30 then 30 else 0);
          addHours = (if tm_min t < 30 then 0 else 1);
          target = t\<lparr>tm_sec := 0, tm_min := targetMin, tm_hour := tm_hour t + addHours\<rparr>;
          targetEpoch = mktime e target;
          targetEpoch = (if targetEpoch \<le> nowLocal then nowLocal + 60 else targetEpoch)
      in u64 (targetEpoch - nowLocal))"

text \<open>
  \<^verbatim>\<open>static time_t nextHalfHourBoundary(time_t now)
  {
    const time_t period = 1800; // 30 minutes
    return ((now / period) + 1) * period;
  }
  static uint64_t secondsUntilNextHalfHourBoundary(time_t now)
  {
    time_t next = nextHalfHourBoundary(now);
    if (next <= now) next = now + 60; // safety
    return (uint64_t)(next - now);
  }
  static bool isMinuteSlot(time_t nowLocal)
  {
    struct tm t;
    localtime_r(&nowLocal, &t);
    return (t.tm_min == 0 || t.tm_min == 30);
  }\<close>
\<close>

definition nextHalfHourBoundary :: "int \<Rightarrow> int" where
  "nextHalfHourBoundary now = (let period = 1800 in (c_div now period + 1) * period)"

definition secondsUntilNextHalfHourBoundary :: "int \<Rightarrow> int" where
  "secondsUntilNextHalfHourBoundary now =
     (let next = nextHalfHourBoundary now;
          next = (if next \<le> now then now + 60 else next)
      in u64 (next - now))"

definition isMinuteSlot :: "env \<Rightarrow> int \<Rightarrow> bool" where
  "isMinuteSlot e nowLocal =
     (let t = localtime_r e nowLocal in tm_min t = 0 \<or> tm_min t = 30)"

text \<open>
  \<open>setup()\<close> of the slot-check sketch. Each call of \<open>deepSleepSeconds\<close> ends the cycle, so
  the code after it runs only when the test before it failed.
  \<^verbatim>\<open>delay(200);
  if (!connectWiFi()) { deepSleepSeconds(60); }
  if (!syncTime()) { deepSleepSeconds(60); }
  time_t nowLocal;
  time(&nowLocal);
  if (!isMinuteSlot(nowLocal))
  {
    uint64_t waitSec = secondsUntilNextHalfHourBoundary(nowLocal);
    deepSleepSeconds(waitSec);
  }
  if (!initBME())
  {
    time(&nowLocal);
    uint64_t waitSec = secondsUntilNextHalfHourSlot(nowLocal);
    deepSleepSeconds(waitSec);
  }
  float temperatureC = bme.readTemperature();
  float humidityPct  = bme.readHumidity();
  powerDownBME();
  postToSupabase(temperatureC, humidityPct);
  time(&nowLocal);
  uint64_t waitSec = secondsUntilNextHalfHourBoundary(nowLocal);
  deepSleepSeconds(waitSec);\<close>
\<close>

definition setup_slot_check :: "env \<Rightarrow> device" where
  "setup_slot_check e =
     (let d = delay 200 boot;
          (connected, d) = connectWiFi e d
      in if \<not> connected then deepSleepSeconds 60 d
         else
           let (synced, d) = syncTime e d
           in if \<not> synced then deepSleepSeconds 60 d
              else
                let nowLocal = epoch_at e (uptime d)
                in if \<not> isMinuteSlot e nowLocal
                   then deepSleepSeconds (secondsUntilNextHalfHourBoundary nowLocal) d
                   else
                     let (found, d) = initBME e d
                     in if \<not> found
                        then deepSleepSeconds
                               (secondsUntilNextHalfHourSlot e (epoch_at e (uptime d))) d
                        else
                          let d = readSensor d;
                              d = powerDownBME d;
                              (code, d) = postToSupabase e d
                          in deepSleepSeconds
                               (secondsUntilNextHalfHourBoundary (epoch_at e (uptime d))) d)"

section \<open>The phase-aligned sketch (Strategy B)\<close>

definition SLEEP_DURATION :: int where
  "SLEEP_DURATION = 30"

definition WAKE_TIME :: int where
  "WAKE_TIME = 6"

definition NTP_TIMEOUT_MS :: nat where
  "NTP_TIMEOUT_MS = 20000"

definition killWiFi :: "device \<Rightarrow> device" where
  "killWiFi d = emit KillWiFi d"

text \<open>
  \<^verbatim>\<open>bool getLocalTime(struct tm * info, uint32_t ms)
  {
      uint32_t start = millis();
      time_t now;
      while((millis()-start) <= ms) {
          time(&now);
          localtime_r(&now, info);
          if(info->tm_year > (2016 - 1900)){
              return true;
          }
          delay(10);
      }
      return false;
  }\<close>
  The sketch calls it with one argument; the Arduino core declares the second with the
  default value 5000.
\<close>

function getLocalTime_poll :: "env \<Rightarrow> nat \<Rightarrow> nat \<Rightarrow> device \<Rightarrow> bool \<times> device" where
  "getLocalTime_poll e start ms d =
     (if uptime d - start \<le> ms
      then
        let info = localtime_r e (epoch_at e (uptime d));
            d = d\<lparr>timeInfo := info\<rparr>
        in if tm_year info > 2016 - 1900 then (True, d)
           else getLocalTime_poll e start ms (delay 10 d)
      else (False, d))"
  by pat_completeness auto
termination
  by (relation "measure (\<lambda>(e, start, ms, d). start + ms + 10 - uptime d)")
     (auto simp: delay_def)

definition getLocalTime :: "env \<Rightarrow> nat \<Rightarrow> device \<Rightarrow> bool \<times> device" where
  "getLocalTime e ms d = getLocalTime_poll e (uptime d) ms d"

definition GETLOCALTIME_MS :: nat where
  "GETLOCALTIME_MS = 5000"

text \<open>
  \<^verbatim>\<open>bool printLocalTime(tm *timeInfo)
  {
    int attempts = 0;
    while (!getLocalTime(timeInfo) && attempts++ < 3)
    {
      Serial.println("Failed to get the time!");
      return false;
    }
    Serial.println(timeInfo, "%A, %B %d, %Y %H:%M:%S");
    return true;
  }\<close>
  The body of the loop returns, so its condition is evaluated once, with \<open>attempts = 0\<close>.
\<close>

definition printLocalTime :: "env \<Rightarrow> device \<Rightarrow> bool \<times> device" where
  "printLocalTime e d =
     (let attempts = (0::int);
          (got, d) = getLocalTime e GETLOCALTIME_MS d
      in if \<not> got \<and> attempts < 3
         then (False, emit (Print ''Failed to get the time!'') d)
         else (True, d))"

text \<open>
  \<^verbatim>\<open>bool waitForSNTPSync(tm *timeInfo)
  {
    unsigned long timeout = millis() + NTP_TIMEOUT_MS;
    if ((esp_sntp_get_sync_status() == SNTP_SYNC_STATUS_RESET)
        && (millis() < timeout))
    {
      delay(100); // ms
      while ((esp_sntp_get_sync_status() == SNTP_SYNC_STATUS_RESET)
          && (millis() < timeout))
      {
        delay(100); // ms
      }
    }
    return printLocalTime(timeInfo);
  }\<close>
\<close>

function waitForSNTPSync_wait :: "env \<Rightarrow> nat \<Rightarrow> device \<Rightarrow> device" where
  "waitForSNTPSync_wait e timeout d =
     (if sntp_reset_at e (uptime d) \<and> uptime d < timeout
      then waitForSNTPSync_wait e timeout (delay 100 d)
      else d)"
  by pat_completeness auto
termination
  by (relation "measure (\<lambda>(e, timeout, d). timeout - uptime d)") (auto simp: delay_def)

definition waitForSNTPSync :: "env \<Rightarrow> device \<Rightarrow> bool \<times> device" where
  "waitForSNTPSync e d =
     (let timeout = uptime d + NTP_TIMEOUT_MS;
          d = (if sntp_reset_at e (uptime d) \<and> uptime d < timeout
               then waitForSNTPSync_wait e timeout (delay 100 d)
               else d)
      in printLocalTime e d)"

text \<open>
  The arithmetic of \<open>beginDeepSleep\<close>, one definition for each local variable. The
  reference hour is a parameter, \<open>wake\<close>; the sketch fixes it to \<open>WAKE_TIME\<close>. The local
  \<open>predictedWakeHour\<close> is computed and never read, and is left out.
  \<^verbatim>\<open>int curHour = (timeInfo->tm_hour - WAKE_TIME + 24) % 24;
  const int curMinute = curHour * 60 + timeInfo->tm_min;
  const int curSecond = curHour * 3600
                      + timeInfo->tm_min * 60
                      + timeInfo->tm_sec;
  const int desiredSleepSeconds = SLEEP_DURATION * 60;
  const int offsetMinutes = curMinute % SLEEP_DURATION;
  const int offsetSeconds = curSecond % desiredSleepSeconds;
  int sleepMinutes = SLEEP_DURATION - offsetMinutes;
  if (desiredSleepSeconds - offsetSeconds < 120
   || offsetSeconds / (float)desiredSleepSeconds > 0.95f)
  {
    sleepMinutes += SLEEP_DURATION;
  }
  uint64_t sleepDuration = sleepMinutes * 60 - timeInfo->tm_sec;
  sleepDuration += 3ULL;
  sleepDuration *= 1.0015f;\<close>
\<close>

text \<open>The literals \<open>0.95f\<close> and \<open>1.0015f\<close>: the binary32 values nearest to the decimals.\<close>

definition f32_lit_0_95 :: rat where
  "f32_lit_0_95 = f32_round (95 / 100)"

definition f32_lit_1_0015 :: rat where
  "f32_lit_1_0015 = f32_round (10015 / 10000)"

definition curHour :: "int \<Rightarrow> tm \<Rightarrow> int" where
  "curHour wake ti = c_mod (tm_hour ti - wake + 24) 24"

definition curMinute :: "int \<Rightarrow> tm \<Rightarrow> int" where
  "curMinute wake ti = curHour wake ti * 60 + tm_min ti"

definition curSecond :: "int \<Rightarrow> tm \<Rightarrow> int" where
  "curSecond wake ti = curHour wake ti * 3600 + tm_min ti * 60 + tm_sec ti"

definition desiredSleepSeconds :: int where
  "desiredSleepSeconds = SLEEP_DURATION * 60"

definition offsetMinutes :: "int \<Rightarrow> tm \<Rightarrow> int" where
  "offsetMinutes wake ti = c_mod (curMinute wake ti) SLEEP_DURATION"

definition offsetSeconds :: "int \<Rightarrow> tm \<Rightarrow> int" where
  "offsetSeconds wake ti = c_mod (curSecond wake ti) desiredSleepSeconds"

definition skipAhead :: "int \<Rightarrow> tm \<Rightarrow> bool" where
  "skipAhead wake ti =
     (desiredSleepSeconds - offsetSeconds wake ti < 120
      \<or> f32_div (f32_of_int (offsetSeconds wake ti)) (f32_of_int desiredSleepSeconds)
          > f32_lit_0_95)"

definition sleepMinutes :: "int \<Rightarrow> tm \<Rightarrow> int" where
  "sleepMinutes wake ti =
     (let sleepMinutes = SLEEP_DURATION - offsetMinutes wake ti
      in if skipAhead wake ti then sleepMinutes + SLEEP_DURATION else sleepMinutes)"

definition sleepDuration :: "int \<Rightarrow> tm \<Rightarrow> int" where
  "sleepDuration wake ti =
     (let sleepDuration = u64 (sleepMinutes wake ti * 60 - tm_sec ti);
          sleepDuration = u64 (sleepDuration + 3)
      in u64_of_f32 (f32_mul (f32_of_int sleepDuration) f32_lit_1_0015))"

text \<open>
  \<^verbatim>\<open>void beginDeepSleep(unsigned long startTime, tm *timeInfo)
  {
    if (!getLocalTime(timeInfo))
    {
      Serial.println("Failed to synchronize time before deep-sleep, referencing older time.");
    }
    ...
    esp_sleep_enable_timer_wakeup(sleepDuration * 1000000ULL);
    ...
    esp_deep_sleep_start();
  }\<close>
\<close>

definition beginDeepSleep :: "env \<Rightarrow> nat \<Rightarrow> device \<Rightarrow> device" where
  "beginDeepSleep e startTime d =
     (let (got, d) = getLocalTime e GETLOCALTIME_MS d;
          d = (if \<not> got
               then emit (Print ''Failed to synchronize time before deep-sleep, referencing older time.'') d
               else d);
          sleepDuration = sleepDuration WAKE_TIME (timeInfo d)
      in emit DeepSleepStart (emit (TimerWakeup (u64 (sleepDuration * 1000000))) d))"

text \<open>
  \<open>setup()\<close> of the phase-aligned sketch. \<open>beginDeepSleep\<close> ends the cycle.
  \<open>disableBuiltinLED\<close> and \<open>configTzTime\<close> touch neither the sensor pin nor the sleep
  timer and are not modelled.
  \<^verbatim>\<open>unsigned long startTime = millis();
  tm timeInfo = {};
  if (!connectWiFi()) { beginDeepSleep(startTime, &timeInfo); }
  configTzTime(TZ_INFO, NTP_SERVER_1, NTP_SERVER_2);
  bool timeConfigured = waitForSNTPSync(&timeInfo);
  if (!timeConfigured)
  {
    Serial.println("Time Synchronization Failed");
    killWiFi();
    beginDeepSleep(startTime, &timeInfo);
  }
  if (!initBME())
  {
    Serial.printf("[BME] Init failed. Going to sleep.");
    killWiFi();
    beginDeepSleep(startTime, &timeInfo);
  }
  float temperatureC = bme.readTemperature();
  float humidityPct  = bme.readHumidity();
  powerDownBME();
  postToSupabase(temperatureC, humidityPct);
  killWiFi();
  beginDeepSleep(startTime, &timeInfo);\<close>
\<close>

definition setup_phase_aligned :: "env \<Rightarrow> device" where
  "setup_phase_aligned e =
     (let startTime = uptime boot;
          (connected, d) = connectWiFi e boot
      in if \<not> connected then beginDeepSleep e startTime d
         else
           let (timeConfigured, d) = waitForSNTPSync e d
           in if \<not> timeConfigured
              then beginDeepSleep e startTime
                     (killWiFi (emit (Print ''Time Synchronization Failed'') d))
              else
                let (found, d) = initBME e d
                in if \<not> found
                   then beginDeepSleep e startTime
                          (killWiFi (emit (Print ''[BME] Init failed. Going to sleep.'') d))
                   else
                     let d = readSensor d;
                         d = powerDownBME d;
                         (code, d) = postToSupabase e d;
                         d = killWiFi d
                     in beginDeepSleep e startTime d)"

section \<open>Observations on a finished wake cycle\<close>

text \<open>The timer values programmed during a cycle, in microseconds, in order.\<close>

fun timers :: "event list \<Rightarrow> int list" where
  "timers [] = []"
| "timers (TimerWakeup us # evs) = us # timers evs"
| "timers (ev # evs) = timers evs"

section \<open>The time of day and the boundaries of Strategy B\<close>

text \<open>
  A wake time is a \<open>struct tm\<close> with its hour, minute and second in their ranges (the C
  library of the ESP32 counts no leap seconds). \<open>nowSeconds\<close> is the time of day it
  denotes. A boundary of Strategy B is an instant a whole number of periods away from the
  reference hour. The elapsed part of the current period, the time remaining to its end
  and the tentative sleep of section 4.2 of the specification are the quantities the
  skip-ahead rule is stated in. The definitions of this section follow the words of the
  specification, not the code; the theorems compare the two.
\<close>

definition valid_clock :: "tm \<Rightarrow> bool" where
  "valid_clock ti =
     (0 \<le> tm_hour ti \<and> tm_hour ti < 24 \<and> 0 \<le> tm_min ti \<and> tm_min ti < 60
      \<and> 0 \<le> tm_sec ti \<and> tm_sec ti < 60)"

definition nowSeconds :: "tm \<Rightarrow> int" where
  "nowSeconds ti = tm_hour ti * 3600 + tm_min ti * 60 + tm_sec ti"

definition is_boundary :: "int \<Rightarrow> int \<Rightarrow> bool" where
  "is_boundary wake t = ((t - wake * 3600) mod (SLEEP_DURATION * 60) = 0)"

definition elapsedSeconds :: "int \<Rightarrow> tm \<Rightarrow> int" where
  "elapsedSeconds wake ti = (nowSeconds ti - wake * 3600) mod (SLEEP_DURATION * 60)"

definition remainingSeconds :: "int \<Rightarrow> tm \<Rightarrow> int" where
  "remainingSeconds wake ti = SLEEP_DURATION * 60 - elapsedSeconds wake ti"

definition next_boundary :: "int \<Rightarrow> tm \<Rightarrow> int" where
  "next_boundary wake ti = nowSeconds ti + remainingSeconds wake ti"

definition elapsedFraction :: "int \<Rightarrow> tm \<Rightarrow> rat" where
  "elapsedFraction wake ti = of_int (elapsedSeconds wake ti) / of_int (SLEEP_DURATION * 60)"

definition skip_ahead_rule :: "int \<Rightarrow> tm \<Rightarrow> bool" where
  "skip_ahead_rule wake ti =
     (95 / 100 \<le> elapsedFraction wake ti \<or> remainingSeconds wake ti < 120)"

definition naiveSleepMinutes :: "int \<Rightarrow> tm \<Rightarrow> int" where
  "naiveSleepMinutes wake ti =
     SLEEP_DURATION - (((tm_hour ti - wake + 24) mod 24) * 60 + tm_min ti) mod SLEEP_DURATION"

text \<open>
  The naive computation: the arithmetic of \<open>beginDeepSleep\<close> with the skip-ahead test left
  out, that is with \<open>sleepMinutes = SLEEP_DURATION - offsetMinutes\<close>, carried through the
  same conversion to seconds, the same 3 seconds and the same multiplication by \<open>1.0015f\<close>.
\<close>

definition naiveSleepDuration :: "int \<Rightarrow> tm \<Rightarrow> int" where
  "naiveSleepDuration wake ti =
     (let sleepMinutes = SLEEP_DURATION - offsetMinutes wake ti;
          sleepDuration = u64 (sleepMinutes * 60 - tm_sec ti);
          sleepDuration = u64 (sleepDuration + 3)
      in u64_of_f32 (f32_mul (f32_of_int sleepDuration) f32_lit_1_0015))"

section \<open>Environments used as concrete inputs\<close>

text \<open>The broken-down time \<open>h:m:s\<close>, the other fields zero.\<close>

definition clock_reading :: "int \<Rightarrow> int \<Rightarrow> int \<Rightarrow> tm" where
  "clock_reading h m s = zero_tm\<lparr>tm_sec := s, tm_min := m, tm_hour := h\<rparr>"


text \<open>
  \<open>localtime_15_nov_2023\<close> and \<open>mktime_15_nov_2023\<close> are \<open>localtime_r\<close> and \<open>mktime\<close> under
  the configured time zone (WET, no offset in November) for the epoch seconds of
  Wednesday 15 November 2023, which begins at 1700006400. \<open>localtime_1_jan_1970\<close> is
  \<open>localtime_r\<close> on the first day of the epoch, where the clock of a device that never
  synchronized stands: it counts the seconds since power-on.
\<close>

definition localtime_15_nov_2023 :: "int \<Rightarrow> tm" where
  "localtime_15_nov_2023 t =
     \<lparr>tm_sec = (t - 1700006400) mod 60, tm_min = (t - 1700006400) div 60 mod 60,
      tm_hour = (t - 1700006400) div 3600, tm_mday = 15, tm_mon = 10, tm_year = 123,
      tm_wday = 3, tm_yday = 318, tm_isdst = 0\<rparr>"

definition mktime_15_nov_2023 :: "tm \<Rightarrow> int" where
  "mktime_15_nov_2023 ti = 1700006400 + tm_hour ti * 3600 + tm_min ti * 60 + tm_sec ti"

definition localtime_1_jan_1970 :: "int \<Rightarrow> tm" where
  "localtime_1_jan_1970 t =
     \<lparr>tm_sec = t mod 60, tm_min = t div 60 mod 60, tm_hour = t div 3600, tm_mday = 1,
      tm_mon = 0, tm_year = 70, tm_wday = 4, tm_yday = 0, tm_isdst = 0\<rparr>"

text \<open>
  A device whose WiFi connects at once and whose clock reads 10:00:00 on 15 November 2023
  at power-on, with the sensor answering and the POST accepted.
\<close>

definition env_ten_oclock :: env where
  "env_ten_oclock =
     \<lparr>wifi_connected_at = (\<lambda>t. True),
      epoch_at = (\<lambda>t. 1700042400 + int (t div 1000)),
      localtime_r = localtime_15_nov_2023,
      mktime = mktime_15_nov_2023,
      sntp_reset_at = (\<lambda>t. False),
      bme_begin = True,
      http_begin = True,
      http_POST = 201\<rparr>"

text \<open>The same device at 10:17:00, outside the minute slots.\<close>

definition env_ten_seventeen :: env where
  "env_ten_seventeen = env_ten_oclock\<lparr>epoch_at := (\<lambda>t. 1700043420 + int (t div 1000))\<rparr>"

text \<open>The same device at 10:00:00 with no sensor at the I2C address.\<close>

definition env_no_sensor :: env where
  "env_no_sensor = env_ten_oclock\<lparr>bme_begin := False\<rparr>"

text \<open>
  The device of \<open>env_ten_oclock\<close> when no time server answers: the SNTP status stays
  \<open>SNTP_SYNC_STATUS_RESET\<close>, while the clock still holds the valid time it kept through
  the deep sleep.
\<close>

definition env_kept_clock :: env where
  "env_kept_clock = env_ten_oclock\<lparr>sntp_reset_at := (\<lambda>t. True)\<rparr>"

text \<open>
  A device whose WiFi connects at once and whose time never synchronizes: the SNTP status
  stays \<open>SNTP_SYNC_STATUS_RESET\<close> and the clock counts the seconds since power-on.
\<close>

definition env_never_synced :: env where
  "env_never_synced =
     \<lparr>wifi_connected_at = (\<lambda>t. True),
      epoch_at = (\<lambda>t. int (t div 1000)),
      localtime_r = localtime_1_jan_1970,
      mktime = (\<lambda>ti. tm_hour ti * 3600 + tm_min ti * 60 + tm_sec ti),
      sntp_reset_at = (\<lambda>t. True),
      bme_begin = True,
      http_begin = True,
      http_POST = 201\<rparr>"

text \<open>
  A device whose clock is invalid for the first 5005 milliseconds after power-on and reads
  15 November 2023, 10:17 from then on.
\<close>

definition env_late_clock :: env where
  "env_late_clock =
     \<lparr>wifi_connected_at = (\<lambda>t. True),
      epoch_at = (\<lambda>t. if t < 5005 then int (t div 1000) else 1700043420 + int (t div 1000)),
      localtime_r = (\<lambda>t. if t < 86400 then localtime_1_jan_1970 t else localtime_15_nov_2023 t),
      mktime = mktime_15_nov_2023,
      sntp_reset_at = (\<lambda>t. False),
      bme_begin = True,
      http_begin = True,
      http_POST = 201\<rparr>"

declare connectWiFi_wait.simps [simp del]
declare getLocalTime_poll.simps [simp del]
declare waitForSNTPSync_wait.simps [simp del]

section \<open>Properties of Strategy A\<close>

lemma c_div_nonneg: "0 \<le> a \<Longrightarrow> 0 < b \<Longrightarrow> c_div a b = a div b"
  by (cases "a = 0") (simp_all add: c_div_def)

lemma nextHalfHourBoundary_nonneg:
  "0 \<le> now \<Longrightarrow> nextHalfHourBoundary now = (now div 1800 + 1) * 1800"
  by (simp add: nextHalfHourBoundary_def c_div_nonneg)

lemma nextHalfHourBoundary_diff:
  "0 \<le> now \<Longrightarrow> nextHalfHourBoundary now - now = 1800 - now mod 1800"
proof -
  assume "0 \<le> now"
  then have "nextHalfHourBoundary now = (now div 1800) * 1800 + 1800"
    by (simp add: nextHalfHourBoundary_nonneg algebra_simps)
  moreover have "now = (now div 1800) * 1800 + now mod 1800"
    by simp
  ultimately show ?thesis by linarith
qed

text \<open>
  Claim C1. For every nonnegative epoch time \<open>now\<close>, the value computed by
  \<open>nextHalfHourBoundary\<close> is a multiple of 1800, is strictly greater than \<open>now\<close>, and no
  multiple of 1800 lies strictly between: it is the smallest multiple of the period
  strictly greater than \<open>now\<close>. It is at most \<open>now + 1800\<close>, so the computation stays in the
  range of \<open>time_t\<close> whenever \<open>now + 1800\<close> does.
\<close>

theorem nextHalfHourBoundary_smallest_multiple:
  assumes "0 \<le> now"
  shows "nextHalfHourBoundary now mod 1800 = 0
       \<and> now < nextHalfHourBoundary now
       \<and> nextHalfHourBoundary now \<le> now + 1800
       \<and> (\<forall>m. m mod 1800 = 0 \<and> now < m \<longrightarrow> nextHalfHourBoundary now \<le> m)"
proof -
  have eq: "nextHalfHourBoundary now = (now div 1800 + 1) * 1800"
    using assms by (rule nextHalfHourBoundary_nonneg)
  have diff: "nextHalfHourBoundary now - now = 1800 - now mod 1800"
    using assms by (rule nextHalfHourBoundary_diff)
  have lo: "0 \<le> now mod 1800" and hi: "now mod 1800 < 1800"
    by simp_all
  have multiple: "nextHalfHourBoundary now mod 1800 = 0"
    by (simp add: eq)
  have greater: "now < nextHalfHourBoundary now"
    using diff hi by linarith
  have near: "nextHalfHourBoundary now \<le> now + 1800"
    using diff lo by linarith
  have least: "nextHalfHourBoundary now \<le> m" if m: "m mod 1800 = 0" "now < m" for m
  proof -
    from m(1) have m_eq: "m = (m div 1800) * 1800"
      by (simp add: mod_eq_0_iff_dvd)
    have "now div 1800 < m div 1800"
    proof (rule ccontr)
      assume "\<not> now div 1800 < m div 1800"
      then have "m div 1800 \<le> now div 1800" by simp
      then have "(m div 1800) * 1800 \<le> (now div 1800) * 1800" by simp
      also have "\<dots> \<le> now"
        using lo by (simp add: minus_mod_eq_div_mult [symmetric])
      finally show False using m_eq m(2) by linarith
    qed
    then have "now div 1800 + 1 \<le> m div 1800" by simp
    then have "(now div 1800 + 1) * 1800 \<le> (m div 1800) * 1800" by simp
    then show ?thesis using eq m_eq by simp
  qed
  show ?thesis using multiple greater near least by auto
qed

theorem nextHalfHourBoundary_smallest_multiple_witness:
  "nextHalfHourBoundary 1700043420 mod 1800 = 0
 \<and> 1700043420 < nextHalfHourBoundary 1700043420
 \<and> nextHalfHourBoundary 1700043420 \<le> 1700044200"
proof -
  have h: "(0::int) \<le> 1700043420" by simp
  note t = nextHalfHourBoundary_smallest_multiple [OF h]
  have least: "nextHalfHourBoundary 1700043420 \<le> 1700044200"
    using t [THEN conjunct2, THEN conjunct2, THEN conjunct2, THEN spec, of 1700044200]
    by simp
  show ?thesis
    using t [THEN conjunct1] t [THEN conjunct2, THEN conjunct1] least by simp
qed

text \<open>
  Claim C10. For every nonnegative epoch time \<open>now\<close>,
  \<open>secondsUntilNextHalfHourBoundary now\<close> is between 1 and 1800 inclusive, and the test
  \<open>next <= now\<close> guarding the 60 second fallback is false, so that branch is not taken.
\<close>

theorem secondsUntilNextHalfHourBoundary_range:
  assumes "0 \<le> now"
  shows "1 \<le> secondsUntilNextHalfHourBoundary now
       \<and> secondsUntilNextHalfHourBoundary now \<le> 1800
       \<and> \<not> nextHalfHourBoundary now \<le> now
       \<and> secondsUntilNextHalfHourBoundary now = nextHalfHourBoundary now - now"
proof -
  have diff: "nextHalfHourBoundary now - now = 1800 - now mod 1800"
    using assms by (rule nextHalfHourBoundary_diff)
  have lo: "0 \<le> now mod 1800" and hi: "now mod 1800 < 1800"
    by simp_all
  have not_taken: "\<not> nextHalfHourBoundary now \<le> now"
    using diff hi by linarith
  have range: "1 \<le> nextHalfHourBoundary now - now" "nextHalfHourBoundary now - now \<le> 1800"
    using diff lo hi by linarith+
  then have "u64 (nextHalfHourBoundary now - now) = nextHalfHourBoundary now - now"
    by (simp add: u64_def)
  then have val: "secondsUntilNextHalfHourBoundary now = nextHalfHourBoundary now - now"
    using not_taken by (simp add: secondsUntilNextHalfHourBoundary_def Let_def)
  show ?thesis using val range not_taken by simp
qed

theorem secondsUntilNextHalfHourBoundary_range_witness:
  "secondsUntilNextHalfHourBoundary 1700043420 = 780
 \<and> \<not> nextHalfHourBoundary 1700043420 \<le> 1700043420"
proof -
  have h: "(0::int) \<le> 1700043420" by simp
  have v: "nextHalfHourBoundary 1700043420 = 1700044200"
    by (simp add: nextHalfHourBoundary_def c_div_def)
  show ?thesis
    using secondsUntilNextHalfHourBoundary_range [OF h] unfolding v by simp
qed

section \<open>Properties of the single-precision rounding\<close>

lemma pow2_pos: "0 < pow2 e"
  by (simp add: pow2_def)

lemma pow2_Suc: "pow2 (e + 1) = 2 * pow2 e"
proof (cases "0 \<le> e")
  case True
  then show ?thesis by (simp add: pow2_def nat_add_distrib)
next
  case False
  then have "nat (- e) = Suc (nat (- (e + 1)))" by simp
  then show ?thesis using False
    by (cases "e + 1 = 0") (auto simp: pow2_def simp del: nat_add_distrib)
qed

lemma pow2_mono: "a \<le> b \<Longrightarrow> pow2 a \<le> pow2 b"
proof -
  assume "a \<le> b"
  then obtain k :: nat where "b = a + int k"
    using zle_iff_zadd by auto
  moreover have "pow2 a \<le> pow2 (a + int k)"
  proof (induction k)
    case 0
    show ?case by simp
  next
    case (Suc k)
    have "pow2 (a + int (Suc k)) = 2 * pow2 (a + int k)"
      using pow2_Suc [of "a + int k"] by (simp add: algebra_simps)
    with Suc pow2_pos [of "a + int k"] show ?case by linarith
  qed
  ultimately show ?thesis by simp
qed

lemma f32_scan_spec:
  "e0 \<le> f32_scan k e0 r
 \<and> f32_scan k e0 r \<le> e0 + int k
 \<and> (f32_scan k e0 r < e0 + int k \<longrightarrow> r < pow2 (f32_scan k e0 r + 1))
 \<and> (e0 < f32_scan k e0 r \<longrightarrow> pow2 (f32_scan k e0 r) \<le> r)"
proof (induction k arbitrary: e0)
  case 0
  show ?case by simp
next
  case (Suc k)
  show ?case
  proof (cases "r < pow2 (e0 + 1)")
    case True
    then show ?thesis by simp
  next
    case False
    then have eq: "f32_scan (Suc k) e0 r = f32_scan k (e0 + 1) r" by simp
    have ih: "e0 + 1 \<le> f32_scan k (e0 + 1) r"
      "f32_scan k (e0 + 1) r \<le> e0 + 1 + int k"
      "f32_scan k (e0 + 1) r < e0 + 1 + int k \<longrightarrow> r < pow2 (f32_scan k (e0 + 1) r + 1)"
      "e0 + 1 < f32_scan k (e0 + 1) r \<longrightarrow> pow2 (f32_scan k (e0 + 1) r) \<le> r"
      using Suc.IH [of "e0 + 1"] by blast+
    have low: "pow2 (f32_scan k (e0 + 1) r) \<le> r"
    proof (cases "e0 + 1 < f32_scan k (e0 + 1) r")
      case True
      with ih(4) show ?thesis by blast
    next
      case False
      with ih(1) have "f32_scan k (e0 + 1) r = e0 + 1" by simp
      with \<open>\<not> r < pow2 (e0 + 1)\<close> show ?thesis by simp
    qed
    show ?thesis unfolding eq using ih low by auto
  qed
qed

lemma f32_exponent_bounds:
  assumes "pow2 (- 126) \<le> r" "r < pow2 128"
  shows "pow2 (f32_exponent r) \<le> r \<and> r < pow2 (f32_exponent r + 1)"
proof -
  have pos: "0 < r" using assms(1) pow2_pos [of "- 126"] by linarith
  then have abs: "\<bar>r\<bar> = r" by simp
  let ?e = "f32_scan 253 (- 126) r"
  have s: "- 126 \<le> ?e" "?e \<le> - 126 + int 253"
    "?e < - 126 + int 253 \<longrightarrow> r < pow2 (?e + 1)"
    "- 126 < ?e \<longrightarrow> pow2 ?e \<le> r"
    using f32_scan_spec [of "- 126" 253 r] by blast+
  have low: "pow2 ?e \<le> r"
  proof (cases "- 126 < ?e")
    case True
    with s(4) show ?thesis by blast
  next
    case False
    with s(1) have "?e = - 126" by simp
    with assms(1) show ?thesis by simp
  qed
  have high: "r < pow2 (?e + 1)"
  proof (cases "?e < - 126 + int 253")
    case True
    with s(3) show ?thesis by blast
  next
    case False
    with s(2) have "?e = 127" by simp
    with assms(2) show ?thesis by simp
  qed
  show ?thesis using low high by (simp add: f32_exponent_def abs)
qed

lemma round_half_even_error: "\<bar>of_int (round_half_even y) - y\<bar> \<le> 1 / 2"
proof -
  have "of_int \<lfloor>y\<rfloor> \<le> y" "y < of_int \<lfloor>y\<rfloor> + 1"
    by linarith+
  then show ?thesis
    by (auto simp: round_half_even_def Let_def)
qed

lemma round_half_even_of_int: "round_half_even (of_int n) = n"
  by (simp add: round_half_even_def)

lemma f32_round_error:
  assumes "pow2 (- 126) \<le> r" "r < pow2 128"
  shows "\<bar>f32_round r - r\<bar> \<le> r / 2 ^ 24"
proof -
  let ?e = "f32_exponent r"
  let ?ulp = "pow2 (?e - 23)"
  have b: "pow2 ?e \<le> r" using f32_exponent_bounds [OF assms] by simp
  have ulp_pos: "0 < ?ulp" by (rule pow2_pos)
  have "pow2 ?e = 2 ^ 23 * ?ulp"
  proof -
    have "pow2 (?e - 23 + 1 + 1 + 1 + 1 + 1 + 1 + 1 + 1 + 1 + 1 + 1 + 1 + 1 + 1 + 1 + 1 + 1 + 1
            + 1 + 1 + 1 + 1 + 1) = 2 ^ 23 * ?ulp"
      unfolding pow2_Suc by simp
    then show ?thesis by simp
  qed
  with b have ulp_le: "?ulp \<le> r / 2 ^ 23" by (simp add: field_simps)
  have "f32_round r - r = (of_int (round_half_even (r / ?ulp)) - r / ?ulp) * ?ulp"
    using ulp_pos by (simp add: f32_round_def Let_def field_simps)
  then have "\<bar>f32_round r - r\<bar> = \<bar>of_int (round_half_even (r / ?ulp)) - r / ?ulp\<bar> * ?ulp"
    using ulp_pos by (simp add: abs_mult)
  also have "\<dots> \<le> (1 / 2) * ?ulp"
    using round_half_even_error [of "r / ?ulp"] ulp_pos by (simp add: mult_right_mono)
  also have "\<dots> \<le> (1 / 2) * (r / 2 ^ 23)"
    using ulp_le by simp
  also have "\<dots> = r / 2 ^ 24" by simp
  finally show ?thesis .
qed

lemma pow2_nonneg_eq: "0 \<le> e \<Longrightarrow> pow2 e = 2 ^ nat e"
  by (simp add: pow2_def)

lemma f32_round_of_int_exact:
  assumes "0 \<le> i" "i < 2 ^ 24"
  shows "f32_round (of_int i) = of_int i"
proof (cases "i = 0")
  case True
  then show ?thesis by (simp add: f32_round_def round_half_even_def)
next
  case False
  with assms have i1: "1 \<le> i" by simp
  let ?r = "of_int i :: rat"
  let ?e = "f32_exponent ?r"
  have lo: "pow2 (- 126) \<le> ?r"
  proof -
    have "pow2 (- 126) \<le> pow2 0" by (rule pow2_mono) simp
    also have "\<dots> = 1" by (simp add: pow2_def)
    also have "\<dots> \<le> ?r" using i1 by simp
    finally show ?thesis .
  qed
  have hi24: "?r < 2 ^ 24"
  proof -
    have "?r < of_int (2 ^ 24)" using assms(2) by (simp only: of_int_less_iff)
    then show ?thesis by simp
  qed
  have hi: "?r < pow2 128"
  proof -
    have "pow2 24 \<le> pow2 128" by (rule pow2_mono) simp
    moreover have "pow2 24 = 2 ^ 24" by (simp add: pow2_def)
    ultimately show ?thesis using hi24 by linarith
  qed
  have b: "pow2 ?e \<le> ?r" "?r < pow2 (?e + 1)"
    using f32_exponent_bounds [OF lo hi] by simp_all
  have e_le: "?e \<le> 23"
  proof (rule ccontr)
    assume "\<not> ?e \<le> 23"
    then have "pow2 24 \<le> pow2 ?e" by (intro pow2_mono) simp
    moreover have "pow2 24 = 2 ^ 24" by (simp add: pow2_def)
    ultimately show False using b(1) hi24 by linarith
  qed
  define k where "k = nat (23 - ?e)"
  have ulp: "pow2 (?e - 23) = 1 / 2 ^ k"
  proof (cases "?e = 23")
    case True
    then show ?thesis by (simp add: pow2_def k_def)
  next
    case False
    with e_le have "?e - 23 < 0" by simp
    then show ?thesis by (simp add: pow2_def k_def)
  qed
  have "?r / pow2 (?e - 23) = of_int (i * 2 ^ k)"
    by (simp add: ulp)
  then have "round_half_even (?r / pow2 (?e - 23)) = i * 2 ^ k"
    by (simp only: round_half_even_of_int)
  then show ?thesis
    by (simp add: f32_round_def Let_def ulp)
qed

lemma f32_exponent_unique:
  assumes "pow2 e \<le> r" "r < pow2 (e + 1)" "- 126 \<le> e" "e \<le> 127"
  shows "f32_exponent r = e"
proof -
  have "pow2 (- 126) \<le> pow2 e" using assms(3) by (rule pow2_mono)
  with assms(1) have lo: "pow2 (- 126) \<le> r" by linarith
  have "pow2 (e + 1) \<le> pow2 128" using assms(4) by (intro pow2_mono) simp
  with assms(2) have hi: "r < pow2 128" by linarith
  let ?E = "f32_exponent r"
  have E: "pow2 ?E \<le> r" "r < pow2 (?E + 1)"
    using f32_exponent_bounds [OF lo hi] by simp_all
  show ?thesis
  proof (rule ccontr)
    assume "?E \<noteq> e"
    then consider "?E + 1 \<le> e" | "e + 1 \<le> ?E" by linarith
    then show False
    proof cases
      case 1
      then have "pow2 (?E + 1) \<le> pow2 e" by (rule pow2_mono)
      with E(2) assms(1) show False by linarith
    next
      case 2
      then have "pow2 (e + 1) \<le> pow2 ?E" by (rule pow2_mono)
      with E(1) assms(2) show False by linarith
    qed
  qed
qed

lemma f32_round_at:
  assumes "pow2 e \<le> r" "r < pow2 (e + 1)" "- 126 \<le> e" "e \<le> 127"
  shows "f32_round r = of_int (round_half_even (r / pow2 (e - 23))) * pow2 (e - 23)"
  by (simp add: f32_round_def Let_def f32_exponent_unique [OF assms])

lemma round_half_even_div:
  assumes "0 < d"
  shows "round_half_even (of_int n / of_int d) =
           (if 2 * (n mod d) < d then n div d
            else if d < 2 * (n mod d) then n div d + 1
            else if even (n div d) then n div d else n div d + 1)"
proof -
  have fl: "\<lfloor>(of_int n / of_int d :: rat)\<rfloor> = n div d"
    by (rule floor_divide_of_int_eq)
  have "(of_int n :: rat) = of_int (n div d) * of_int d + of_int (n mod d)"
    by (simp flip: of_int_mult of_int_add)
  then have frac: "(of_int n / of_int d :: rat) - of_int (n div d) = of_int (n mod d) / of_int d"
    using assms by (simp add: field_simps)
  have half1: "(of_int (n mod d) / of_int d :: rat) < 1 / 2 \<longleftrightarrow> 2 * (n mod d) < d"
  proof -
    have "(of_int (n mod d) / of_int d :: rat) < 1 / 2
        \<longleftrightarrow> (of_int (2 * (n mod d)) :: rat) < of_int d"
      using assms by (simp add: field_simps)
    then show ?thesis by (simp only: of_int_less_iff)
  qed
  have half2: "1 / 2 < (of_int (n mod d) / of_int d :: rat) \<longleftrightarrow> d < 2 * (n mod d)"
  proof -
    have "1 / 2 < (of_int (n mod d) / of_int d :: rat)
        \<longleftrightarrow> (of_int d :: rat) < of_int (2 * (n mod d))"
      using assms by (simp add: field_simps)
    then show ?thesis by (simp only: of_int_less_iff)
  qed
  show ?thesis
    unfolding round_half_even_def Let_def fl frac half1 half2 by simp
qed

lemma round_half_even_numeral:
  "round_half_even (numeral a / numeral b) =
     (if 2 * (numeral a mod numeral b) < (numeral b :: int) then numeral a div numeral b
      else if numeral b < 2 * (numeral a mod numeral b :: int) then numeral a div numeral b + 1
      else if even (numeral a div numeral b :: int) then numeral a div numeral b
      else numeral a div numeral b + 1)"
  using round_half_even_div [of "numeral b" "numeral a"] by simp

lemma floor_rat_numeral: "\<lfloor>(numeral a / numeral b :: rat)\<rfloor> = numeral a div numeral b"
  using floor_divide_of_int_eq [of "numeral a" "numeral b", where ?'a = rat] by simp

lemmas f32_eval = pow2_def round_half_even_numeral round_half_even_of_int [of "numeral a" for a, simplified]

section \<open>Frame and timeout properties of the polling functions\<close>

lemmas device_ops = delay_def emit_def digitalWrite_PWR_def

lemma connectWiFi_wait_frame:
  "trace (connectWiFi_wait e start d) = trace d
 \<and> pwr_pin (connectWiFi_wait e start d) = pwr_pin d
 \<and> timeInfo (connectWiFi_wait e start d) = timeInfo d"
proof (induction e start d rule: connectWiFi_wait.induct)
  case (1 e start d)
  show ?case
  proof (cases "\<not> wifi_connected_at e (uptime d) \<and> uptime d - start < WIFI_CONNECT_TIMEOUT_MS")
    case True
    then have "connectWiFi_wait e start d = connectWiFi_wait e start (delay 250 d)"
      by (subst connectWiFi_wait.simps) simp
    with 1 True show ?thesis by (simp add: delay_def)
  next
    case False
    then have "connectWiFi_wait e start d = d"
      by (subst connectWiFi_wait.simps) auto
    then show ?thesis by simp
  qed
qed

lemma connectWiFi_True:
  assumes "connectWiFi e d = (True, d')"
  shows "trace d' = trace d \<and> pwr_pin d' = pwr_pin d \<and> timeInfo d' = timeInfo d"
  using assms connectWiFi_wait_frame [of e "uptime d" d]
  by (auto simp: connectWiFi_def Let_def split: if_splits)

lemma connectWiFi_at_once:
  "wifi_connected_at e (uptime d) \<Longrightarrow> connectWiFi e d = (True, d)"
  by (simp add: connectWiFi_def Let_def connectWiFi_wait.simps [of e "uptime d" d])

lemma syncTime_poll_True:
  "syncTime_poll n e d = (True, d') \<Longrightarrow>
     trace d' = trace d \<and> pwr_pin d' = pwr_pin d \<and> timeInfo d' = timeInfo d
     \<and> 1700000000 < epoch_at e (uptime d')"
proof (induction n arbitrary: d)
  case 0
  then show ?case by simp
next
  case (Suc n)
  show ?case
  proof (cases "1700000000 < epoch_at e (uptime d)")
    case True
    with Suc.prems have "d' = d" by (simp add: Let_def)
    with True show ?thesis by simp
  next
    case False
    with Suc.prems have "syncTime_poll n e (delay 250 d) = (True, d')" by (simp add: Let_def)
    from Suc.IH [OF this] show ?thesis by (simp add: delay_def)
  qed
qed

lemma syncTime_poll_never:
  "(\<forall>i<n. epoch_at e (uptime d + 250 * i) \<le> 1700000000) \<Longrightarrow>
     syncTime_poll n e d =
       (False, emit (Print ''[TIME] NTP sync failed.'') (d\<lparr>uptime := uptime d + 250 * n\<rparr>))"
proof (induction n arbitrary: d)
  case 0
  then show ?case by simp
next
  case (Suc n)
  from Suc.prems have first: "epoch_at e (uptime d) \<le> 1700000000"
    by (metis add.right_neutral mult_zero_right zero_less_Suc)
  have rest: "\<forall>i<n. epoch_at e (uptime (delay 250 d) + 250 * i) \<le> 1700000000"
  proof (intro allI impI)
    fix i assume "i < n"
    then have "Suc i < Suc n" by simp
    with Suc.prems have "epoch_at e (uptime d + 250 * Suc i) \<le> 1700000000" by blast
    then show "epoch_at e (uptime (delay 250 d) + 250 * i) \<le> 1700000000"
      by (simp add: delay_def add.assoc)
  qed
  from Suc.IH [OF rest] first show ?case
    by (simp add: Let_def delay_def emit_def add.assoc)
qed

lemma deepSleepSeconds_frame:
  "trace (deepSleepSeconds s d) =
     trace d @ [TimerWakeup (u64 ((if s < 10 then 10 else s) * 1000000)), DeepSleepStart]
 \<and> pwr_pin (deepSleepSeconds s d) = pwr_pin d"
  by (simp add: deepSleepSeconds_def Let_def emit_def)

lemma getLocalTime_poll_frame:
  "trace (snd (getLocalTime_poll e start ms d)) = trace d
 \<and> pwr_pin (snd (getLocalTime_poll e start ms d)) = pwr_pin d"
proof (induction e start ms d rule: getLocalTime_poll.induct)
  case (1 e start ms d)
  let ?info = "localtime_r e (epoch_at e (uptime d))"
  show ?case
  proof (cases "uptime d - start \<le> ms")
    case False
    then have "getLocalTime_poll e start ms d = (False, d)"
      by (subst getLocalTime_poll.simps) simp
    then show ?thesis by simp
  next
    case True
    show ?thesis
    proof (cases "tm_year ?info > 2016 - 1900")
      case valid: True
      with True have "getLocalTime_poll e start ms d = (True, d\<lparr>timeInfo := ?info\<rparr>)"
        by (subst getLocalTime_poll.simps) (simp add: Let_def)
      then show ?thesis by simp
    next
      case invalid: False
      with True have "getLocalTime_poll e start ms d =
          getLocalTime_poll e start ms (delay 10 (d\<lparr>timeInfo := ?info\<rparr>))"
        by (subst getLocalTime_poll.simps) (simp add: Let_def)
      with 1 [OF True refl refl invalid] show ?thesis by (simp add: delay_def)
    qed
  qed
qed

lemma getLocalTime_poll_timeout:
  assumes inv: "\<forall>t \<le> start + ms. tm_year (localtime_r e (epoch_at e t)) \<le> 116"
  shows "start \<le> uptime d \<Longrightarrow> uptime d + 10 * k \<le> start + ms \<Longrightarrow>
         start + ms < uptime d + 10 * Suc k \<Longrightarrow>
         getLocalTime_poll e start ms d =
           (False, d\<lparr>uptime := uptime d + 10 * Suc k,
                     timeInfo := localtime_r e (epoch_at e (uptime d + 10 * k))\<rparr>)"
proof (induction k arbitrary: d)
  case 0
  let ?info = "localtime_r e (epoch_at e (uptime d))"
  let ?d = "delay 10 (d\<lparr>timeInfo := ?info\<rparr>)"
  from 0 have cond: "uptime d - start \<le> ms" by simp
  from 0 inv have invalid: "\<not> tm_year ?info > 2016 - 1900" by (simp add: not_less)
  have step: "getLocalTime_poll e start ms d = getLocalTime_poll e start ms ?d"
    using cond invalid by (subst getLocalTime_poll.simps) (simp add: Let_def)
  from 0 have "\<not> uptime ?d - start \<le> ms" by (simp add: delay_def)
  then have "getLocalTime_poll e start ms ?d = (False, ?d)"
    by (subst getLocalTime_poll.simps) simp
  with step show ?case by (simp add: delay_def)
next
  case (Suc k)
  let ?info = "localtime_r e (epoch_at e (uptime d))"
  let ?d = "delay 10 (d\<lparr>timeInfo := ?info\<rparr>)"
  from Suc.prems have cond: "uptime d - start \<le> ms" by simp
  from Suc.prems inv have invalid: "\<not> tm_year ?info > 2016 - 1900" by (simp add: not_less)
  have step: "getLocalTime_poll e start ms d = getLocalTime_poll e start ms ?d"
    using cond invalid by (subst getLocalTime_poll.simps) (simp add: Let_def)
  have up: "uptime ?d = uptime d + 10" by (simp add: delay_def)
  have p: "start \<le> uptime ?d" "uptime ?d + 10 * k \<le> start + ms"
    "start + ms < uptime ?d + 10 * Suc k"
    using Suc.prems by (simp_all add: up)
  have "getLocalTime_poll e start ms ?d =
      (False, ?d\<lparr>uptime := uptime ?d + 10 * Suc k,
                  timeInfo := localtime_r e (epoch_at e (uptime ?d + 10 * k))\<rparr>)"
    using p by (rule Suc.IH)
  with step show ?case by (simp add: delay_def add.assoc)
qed

lemma waitForSNTPSync_wait_frame:
  "trace (waitForSNTPSync_wait e timeout d) = trace d
 \<and> pwr_pin (waitForSNTPSync_wait e timeout d) = pwr_pin d
 \<and> timeInfo (waitForSNTPSync_wait e timeout d) = timeInfo d"
proof (induction e timeout d rule: waitForSNTPSync_wait.induct)
  case (1 e timeout d)
  show ?case
  proof (cases "sntp_reset_at e (uptime d) \<and> uptime d < timeout")
    case True
    then have "waitForSNTPSync_wait e timeout d = waitForSNTPSync_wait e timeout (delay 100 d)"
      by (subst waitForSNTPSync_wait.simps) simp
    with 1 True show ?thesis by (simp add: delay_def)
  next
    case False
    then have "waitForSNTPSync_wait e timeout d = d"
      by (subst waitForSNTPSync_wait.simps) auto
    then show ?thesis by simp
  qed
qed

lemma waitForSNTPSync_wait_timeout:
  assumes reset: "\<forall>t. sntp_reset_at e t"
  shows "timeout \<le> uptime d + 100 * k \<Longrightarrow> (0 < k \<longrightarrow> uptime d + 100 * (k - 1) < timeout) \<Longrightarrow>
         waitForSNTPSync_wait e timeout d = d\<lparr>uptime := uptime d + 100 * k\<rparr>"
proof (induction k arbitrary: d)
  case 0
  then have "waitForSNTPSync_wait e timeout d = d"
    by (subst waitForSNTPSync_wait.simps) simp
  then show ?case by simp
next
  case (Suc k)
  then have lt: "uptime d < timeout" by simp
  have step: "waitForSNTPSync_wait e timeout d = waitForSNTPSync_wait e timeout (delay 100 d)"
    using reset lt by (subst waitForSNTPSync_wait.simps) simp
  have up: "uptime (delay 100 d) = uptime d + 100" by (simp add: delay_def)
  have p: "timeout \<le> uptime (delay 100 d) + 100 * k"
    "0 < k \<longrightarrow> uptime (delay 100 d) + 100 * (k - 1) < timeout"
    using Suc.prems by (auto simp: up algebra_simps)
  have "waitForSNTPSync_wait e timeout (delay 100 d) =
      (delay 100 d)\<lparr>uptime := uptime (delay 100 d) + 100 * k\<rparr>"
    using p by (rule Suc.IH)
  with step show ?case by (simp add: delay_def add.assoc)
qed

lemma getLocalTime_at_once:
  "tm_year (localtime_r e (epoch_at e (uptime d))) > 116 \<Longrightarrow>
     getLocalTime e ms d = (True, d\<lparr>timeInfo := localtime_r e (epoch_at e (uptime d))\<rparr>)"
  by (simp add: getLocalTime_def getLocalTime_poll.simps [of e "uptime d" ms d] Let_def)

lemma getLocalTime_retries:
  assumes "\<not> tm_year (localtime_r e (epoch_at e (uptime d))) > 116"
    and "tm_year (localtime_r e (epoch_at e (uptime d + 10))) > 116"
    and "10 \<le> ms"
  shows "getLocalTime e ms d =
           (True, d\<lparr>uptime := uptime d + 10,
                    timeInfo := localtime_r e (epoch_at e (uptime d + 10))\<rparr>)"
proof -
  let ?d = "delay 10 (d\<lparr>timeInfo := localtime_r e (epoch_at e (uptime d))\<rparr>)"
  have "getLocalTime_poll e (uptime d) ms d = getLocalTime_poll e (uptime d) ms ?d"
    using assms(1) by (subst getLocalTime_poll.simps) (simp add: Let_def)
  also have "\<dots> = (True, ?d\<lparr>timeInfo := localtime_r e (epoch_at e (uptime ?d))\<rparr>)"
    using assms(2,3) by (subst getLocalTime_poll.simps) (simp add: Let_def delay_def)
  finally show ?thesis by (simp add: getLocalTime_def delay_def)
qed

lemma syncTime_retries:
  assumes "epoch_at e (uptime d) \<le> 1700000000" "1700000000 < epoch_at e (uptime d + 250)"
  shows "syncTime e d = (True, delay 250 d)"
  using assms by (simp add: syncTime_def eval_nat_numeral Let_def delay_def)

lemma syncTime_poll_succeeds_iff:
  "fst (syncTime_poll n e d) \<longleftrightarrow> (\<exists>i<n. 1700000000 < epoch_at e (uptime d + 250 * i))"
proof (induction n arbitrary: d)
  case 0
  show ?case by simp
next
  case (Suc n)
  show ?case
  proof (cases "1700000000 < epoch_at e (uptime d)")
    case True
    then have "\<exists>i<Suc n. 1700000000 < epoch_at e (uptime d + 250 * i)"
      by (intro exI [of _ 0]) simp
    with True show ?thesis by (simp add: Let_def)
  next
    case False
    then have "fst (syncTime_poll (Suc n) e d) = fst (syncTime_poll n e (delay 250 d))"
      by (simp add: Let_def)
    also have "\<dots> \<longleftrightarrow> (\<exists>i<n. 1700000000 < epoch_at e (uptime d + 250 * Suc i))"
      by (simp add: Suc.IH delay_def add.assoc)
    also have "\<dots> \<longleftrightarrow> (\<exists>i<Suc n. 1700000000 < epoch_at e (uptime d + 250 * i))"
    proof
      assume "\<exists>i<n. 1700000000 < epoch_at e (uptime d + 250 * Suc i)"
      then obtain i where "i < n" "1700000000 < epoch_at e (uptime d + 250 * Suc i)" by blast
      then have "Suc i < Suc n \<and> 1700000000 < epoch_at e (uptime d + 250 * Suc i)" by simp
      then show "\<exists>i<Suc n. 1700000000 < epoch_at e (uptime d + 250 * i)" by blast
    next
      assume "\<exists>i<Suc n. 1700000000 < epoch_at e (uptime d + 250 * i)"
      then obtain i where i: "i < Suc n" "1700000000 < epoch_at e (uptime d + 250 * i)" by blast
      with False have "i \<noteq> 0" by (cases i) auto
      then obtain j where "i = Suc j" by (cases i) auto
      with i have "j < n \<and> 1700000000 < epoch_at e (uptime d + 250 * Suc j)" by simp
      then show "\<exists>i<n. 1700000000 < epoch_at e (uptime d + 250 * Suc i)" by blast
    qed
    finally show ?thesis .
  qed
qed

lemma getLocalTime_poll_succeeds_iff:
  "start \<le> uptime d \<Longrightarrow>
     fst (getLocalTime_poll e start ms d) \<longleftrightarrow>
       (\<exists>k. uptime d + 10 * k \<le> start + ms
            \<and> 2016 - 1900 < tm_year (localtime_r e (epoch_at e (uptime d + 10 * k))))"
proof (induction e start ms d rule: getLocalTime_poll.induct)
  case (1 e start ms d)
  let ?info = "localtime_r e (epoch_at e (uptime d))"
  let ?d = "delay 10 (d\<lparr>timeInfo := ?info\<rparr>)"
  let ?valid = "\<lambda>t. 2016 - 1900 < tm_year (localtime_r e (epoch_at e t))"
  show ?case
  proof (cases "uptime d - start \<le> ms")
    case False
    then have "getLocalTime_poll e start ms d = (False, d)"
      by (subst getLocalTime_poll.simps) simp
    moreover from False have "\<not> uptime d + 10 * k \<le> start + ms" for k by simp
    ultimately show ?thesis by simp
  next
    case True
    with "1.prems" have inside: "uptime d \<le> start + ms" by simp
    show ?thesis
    proof (cases "?valid (uptime d)")
      case valid: True
      with True have "getLocalTime_poll e start ms d = (True, d\<lparr>timeInfo := ?info\<rparr>)"
        by (subst getLocalTime_poll.simps) (simp add: Let_def)
      moreover have "\<exists>k. uptime d + 10 * k \<le> start + ms \<and> ?valid (uptime d + 10 * k)"
        using inside valid by (intro exI [of _ 0]) simp
      ultimately show ?thesis by simp
    next
      case invalid: False
      with True have step: "getLocalTime_poll e start ms d = getLocalTime_poll e start ms ?d"
        by (subst getLocalTime_poll.simps) (simp add: Let_def)
      have up: "uptime ?d = uptime d + 10" by (simp add: delay_def)
      have "start \<le> uptime ?d" using "1.prems" by (simp add: up)
      from "1.IH" [OF True refl refl _ this] invalid
      have ih: "fst (getLocalTime_poll e start ms ?d) \<longleftrightarrow>
          (\<exists>k. uptime d + 10 * Suc k \<le> start + ms \<and> ?valid (uptime d + 10 * Suc k))"
        by (simp add: up add.assoc)
      have "(\<exists>k. uptime d + 10 * Suc k \<le> start + ms \<and> ?valid (uptime d + 10 * Suc k))
          \<longleftrightarrow> (\<exists>k. uptime d + 10 * k \<le> start + ms \<and> ?valid (uptime d + 10 * k))"
      proof
        assume "\<exists>k. uptime d + 10 * Suc k \<le> start + ms \<and> ?valid (uptime d + 10 * Suc k)"
        then obtain k where "uptime d + 10 * Suc k \<le> start + ms \<and> ?valid (uptime d + 10 * Suc k)"
          by blast
        then show "\<exists>k. uptime d + 10 * k \<le> start + ms \<and> ?valid (uptime d + 10 * k)"
          by (rule exI [of _ "Suc k"])
      next
        assume "\<exists>k. uptime d + 10 * k \<le> start + ms \<and> ?valid (uptime d + 10 * k)"
        then obtain k where k: "uptime d + 10 * k \<le> start + ms" "?valid (uptime d + 10 * k)"
          by blast
        with invalid have "k \<noteq> 0" by (cases k) auto
        then obtain j where "k = Suc j" by (cases k) auto
        with k have "uptime d + 10 * Suc j \<le> start + ms \<and> ?valid (uptime d + 10 * Suc j)"
          by simp
        then show "\<exists>k. uptime d + 10 * Suc k \<le> start + ms \<and> ?valid (uptime d + 10 * Suc k)"
          by blast
      qed
      with step ih show ?thesis by simp
    qed
  qed
qed

lemma getLocalTime_succeeds_iff:
  "fst (getLocalTime e ms d) \<longleftrightarrow>
     (\<exists>k \<le> ms div 10. 2016 - 1900 < tm_year (localtime_r e (epoch_at e (uptime d + 10 * k))))"
proof -
  have "uptime d + 10 * k \<le> uptime d + ms \<longleftrightarrow> k \<le> ms div 10" for k
    by presburger
  then show ?thesis
    using getLocalTime_poll_succeeds_iff [of "uptime d" d e ms]
    by (simp add: getLocalTime_def)
qed

lemma waitForSNTPSync_wait_uptime:
  "uptime d \<le> T \<Longrightarrow> timeout + 100 \<le> T \<Longrightarrow>
     uptime d \<le> uptime (waitForSNTPSync_wait e timeout d)
     \<and> uptime (waitForSNTPSync_wait e timeout d) \<le> T"
proof (induction e timeout d rule: waitForSNTPSync_wait.induct)
  case (1 e timeout d)
  show ?case
  proof (cases "sntp_reset_at e (uptime d) \<and> uptime d < timeout")
    case True
    then have step:
      "waitForSNTPSync_wait e timeout d = waitForSNTPSync_wait e timeout (delay 100 d)"
      by (subst waitForSNTPSync_wait.simps) simp
    have "uptime (delay 100 d) \<le> T" using True "1.prems"(2) by (simp add: delay_def)
    from "1.IH" [OF True this "1.prems"(2)] show ?thesis
      unfolding step by (simp add: delay_def)
  next
    case False
    then have "waitForSNTPSync_wait e timeout d = d"
      by (subst waitForSNTPSync_wait.simps) auto
    with "1.prems" show ?thesis by simp
  qed
qed

section \<open>The arithmetic of Strategy B\<close>

lemma c_mod_nonneg: "0 \<le> a \<Longrightarrow> 0 < b \<Longrightarrow> c_mod a b = a mod b"
  by (simp add: c_mod_def c_div_nonneg minus_mult_div_eq_mod)

lemma next_multiple_least:
  fixes a m :: int
  assumes "m mod 1800 = 0" "a < m"
  shows "a + 1800 - a mod 1800 \<le> m"
proof -
  define q r p where "q = a div 1800" and "r = a mod 1800" and "p = m div 1800"
  from assms(1) have m_eq: "m = p * 1800"
    by (simp add: mod_eq_0_iff_dvd p_def)
  have a_eq: "a = q * 1800 + r" by (simp add: q_def r_def)
  have lo: "0 \<le> r" by (simp add: r_def)
  have "q < p"
  proof (rule ccontr)
    assume "\<not> q < p"
    then have "p * 1800 \<le> q * 1800" by simp
    with a_eq lo m_eq assms(2) show False by linarith
  qed
  then have "q + 1 \<le> p" by simp
  then have "(q + 1) * 1800 \<le> p * 1800" by (simp only: mult_le_cancel_right) simp
  then have "q * 1800 + 1800 \<le> p * 1800" by (simp add: algebra_simps)
  with a_eq m_eq show ?thesis unfolding r_def [symmetric] by linarith
qed

lemma f32_lit_0_95_value: "f32_lit_0_95 = 15938355 / 16777216"
  unfolding f32_lit_0_95_def
  by (subst f32_round_at [where e = "- 1"]) (simp_all add: f32_eval)

lemma f32_lit_1_0015_value: "f32_lit_1_0015 = 8401191 / 8388608"
  unfolding f32_lit_1_0015_def
  by (subst f32_round_at [where e = 0]) (simp_all add: f32_eval)

lemma f32_round_0: "f32_round 0 = 0"
  by (simp add: f32_round_def round_half_even_def)

lemma offsets_of_valid_clock:
  assumes "valid_clock ti" "0 \<le> wake" "wake < 24"
  shows "offsetMinutes wake ti = tm_min ti mod 30"
    and "offsetSeconds wake ti = (tm_min ti mod 30) * 60 + tm_sec ti"
    and "elapsedSeconds wake ti = (tm_min ti mod 30) * 60 + tm_sec ti"
    and "naiveSleepMinutes wake ti = 30 - tm_min ti mod 30"
proof -
  let ?h = "tm_hour ti" and ?m = "tm_min ti" and ?s = "tm_sec ti"
  from assms have r: "0 \<le> ?h" "?h < 24" "0 \<le> ?m" "?m < 60" "0 \<le> ?s" "?s < 60"
    by (simp_all add: valid_clock_def)
  define H where "H = (?h - wake + 24) mod 24"
  have H0: "0 \<le> H" by (simp add: H_def)
  have cur: "curHour wake ti = H"
    using r assms(2,3) by (simp add: curHour_def c_mod_nonneg H_def)
  have small: "0 \<le> (?m mod 30) * 60 + ?s" "(?m mod 30) * 60 + ?s < 1800"
  proof -
    have "0 \<le> ?m mod 30" "?m mod 30 < 30" by simp_all
    with r show "0 \<le> (?m mod 30) * 60 + ?s" "(?m mod 30) * 60 + ?s < 1800" by linarith+
  qed
  have "curMinute wake ti = ?m + 30 * (2 * H)"
    by (simp add: curMinute_def cur)
  then have "curMinute wake ti mod 30 = ?m mod 30"
    by (simp only: mod_mult_self2)
  moreover have "0 \<le> curMinute wake ti"
    using H0 r by (simp add: curMinute_def cur)
  ultimately show "offsetMinutes wake ti = ?m mod 30"
    by (simp add: offsetMinutes_def SLEEP_DURATION_def c_mod_nonneg)
  define q r where "q = ?m div 30" and "r = ?m mod 30"
  have "?m = q * 30 + r" by (simp add: q_def r_def)
  then have m_split: "?m * 60 = q * 1800 + r * 60" by simp
  have sec_mod: "(x * 1800 + ((?m mod 30) * 60 + ?s)) mod 1800 = (?m mod 30) * 60 + ?s" for x
    using small by (simp add: mod_pos_pos_trivial)
  have "curSecond wake ti = (2 * H + q) * 1800 + (r * 60 + ?s)"
    unfolding curSecond_def cur using m_split by (simp add: algebra_simps)
  then have "curSecond wake ti = (2 * H + ?m div 30) * 1800 + ((?m mod 30) * 60 + ?s)"
    by (simp only: q_def r_def)
  then have "curSecond wake ti mod 1800 = (?m mod 30) * 60 + ?s"
    by (simp only: sec_mod)
  moreover have "0 \<le> curSecond wake ti"
    using H0 r by (simp add: curSecond_def cur)
  ultimately show "offsetSeconds wake ti = (?m mod 30) * 60 + ?s"
    by (simp add: offsetSeconds_def desiredSleepSeconds_def SLEEP_DURATION_def c_mod_nonneg)
  have "nowSeconds ti - wake * 3600 = (2 * ?h - 2 * wake + q) * 1800 + (r * 60 + ?s)"
    unfolding nowSeconds_def using m_split by (simp add: algebra_simps)
  then have "nowSeconds ti - wake * 3600
      = (2 * ?h - 2 * wake + ?m div 30) * 1800 + ((?m mod 30) * 60 + ?s)"
    by (simp only: q_def r_def)
  then have "(nowSeconds ti - wake * 3600) mod 1800 = (?m mod 30) * 60 + ?s"
    by (simp only: sec_mod)
  then show "elapsedSeconds wake ti = (?m mod 30) * 60 + ?s"
    by (simp add: elapsedSeconds_def SLEEP_DURATION_def)
  have "H * 60 + ?m = ?m + 30 * (2 * H)" by simp
  then have "(H * 60 + ?m) mod 30 = ?m mod 30"
    by (simp only: mod_mult_self2)
  then show "naiveSleepMinutes wake ti = 30 - ?m mod 30"
    by (simp add: naiveSleepMinutes_def SLEEP_DURATION_def H_def)
qed

lemma offsetSeconds_range:
  assumes "valid_clock ti" "0 \<le> wake" "wake < 24"
  shows "0 \<le> offsetSeconds wake ti \<and> offsetSeconds wake ti < 1800"
proof -
  have "0 \<le> tm_min ti mod 30" "tm_min ti mod 30 < 30" by simp_all
  moreover from assms(1) have "0 \<le> tm_sec ti" "tm_sec ti < 60"
    by (simp_all add: valid_clock_def)
  ultimately show ?thesis
    unfolding offsets_of_valid_clock(2) [OF assms] by linarith
qed

lemma f32_fraction_small:
  assumes "0 \<le> x" "x \<le> 1680"
  shows "\<not> f32_div (f32_of_int x) (f32_of_int 1800) > f32_lit_0_95"
proof (cases "x = 0")
  case True
  then show ?thesis
    by (simp add: f32_div_def f32_of_int_def f32_round_0 f32_lit_0_95_value)
next
  case False
  with assms have x1: "1 \<le> x" by simp
  have ex: "f32_of_int x = of_int x"
    unfolding f32_of_int_def using assms by (intro f32_round_of_int_exact) simp_all
  have e1800: "f32_of_int 1800 = 1800"
    using f32_round_of_int_exact [of 1800] by (simp add: f32_of_int_def)
  let ?r = "of_int x / 1800 :: rat"
  have xr: "(1::rat) \<le> of_int x" "(of_int x :: rat) \<le> 1680"
    using x1 assms(2) by (simp_all add: of_int_le_iff [of x 1680, where ?'a = rat, simplified])
  have r_lo: "1 / 2048 \<le> ?r" and r_hi: "?r \<le> 1680 / 1800"
    using xr by simp_all
  have "pow2 (- 126) \<le> pow2 (- 11)" by (rule pow2_mono) simp
  also have "pow2 (- 11) = 1 / 2048" by (simp add: pow2_def)
  finally have lo: "pow2 (- 126) \<le> ?r" using r_lo by linarith
  have "pow2 0 \<le> pow2 128" by (rule pow2_mono) simp
  moreover have "pow2 0 = 1" by (simp add: pow2_def)
  ultimately have hi: "?r < pow2 128" using r_hi by linarith
  have "\<bar>f32_round ?r - ?r\<bar> \<le> ?r / 2 ^ 24"
    using lo hi by (rule f32_round_error)
  then have "f32_round ?r \<le> ?r + ?r / 2 ^ 24" by linarith
  also have "\<dots> \<le> 1680 / 1800 + (1680 / 1800) / 2 ^ 24"
    using r_hi by (intro add_mono divide_right_mono) simp_all
  also have "\<dots> < 15938355 / 16777216" by simp
  finally show ?thesis
    by (simp add: f32_div_def ex e1800 f32_lit_0_95_value)
qed

lemma skipAhead_iff:
  assumes "valid_clock ti" "0 \<le> wake" "wake < 24"
  shows "skipAhead wake ti \<longleftrightarrow> 1680 < offsetSeconds wake ti"
proof -
  have rng: "0 \<le> offsetSeconds wake ti" using offsetSeconds_range [OF assms] by simp
  show ?thesis
  proof (cases "1680 < offsetSeconds wake ti")
    case True
    then show ?thesis
      by (simp add: skipAhead_def desiredSleepSeconds_def SLEEP_DURATION_def)
  next
    case False
    then have "offsetSeconds wake ti \<le> 1680" by simp
    from f32_fraction_small [OF rng this] False show ?thesis
      by (simp add: skipAhead_def desiredSleepSeconds_def SLEEP_DURATION_def)
  qed
qed

lemma skip_ahead_rule_iff:
  assumes "valid_clock ti" "0 \<le> wake" "wake < 24"
  shows "skip_ahead_rule wake ti \<longleftrightarrow> 1680 < offsetSeconds wake ti"
proof -
  have el: "elapsedSeconds wake ti = offsetSeconds wake ti"
    by (simp add: offsets_of_valid_clock [OF assms])
  have "(95 / 100 :: rat) \<le> of_int (offsetSeconds wake ti) / 1800
      \<Longrightarrow> 1680 < offsetSeconds wake ti"
  proof -
    assume "(95 / 100 :: rat) \<le> of_int (offsetSeconds wake ti) / 1800"
    then have "(1710 :: rat) \<le> of_int (offsetSeconds wake ti)" by simp
    then have "(of_int 1710 :: rat) \<le> of_int (offsetSeconds wake ti)" by simp
    then have "1710 \<le> offsetSeconds wake ti" by (simp only: of_int_le_iff)
    then show ?thesis by simp
  qed
  then show ?thesis
    by (auto simp: skip_ahead_rule_def elapsedFraction_def remainingSeconds_def el
        SLEEP_DURATION_def)
qed

lemma u64_id: "0 \<le> x \<Longrightarrow> x < 2 ^ 64 \<Longrightarrow> u64 x = x"
  by (simp add: u64_def)

lemma compensate_bounds:
  assumes "1 \<le> x" "x < 2 ^ 24"
  shows "x \<le> u64_of_f32 (f32_mul (f32_of_int x) f32_lit_1_0015)"
    and "u64_of_f32 (f32_mul (f32_of_int x) f32_lit_1_0015) * 1000 \<le> x * 1002"
proof -
  define X :: rat where "X = of_int x"
  define r :: rat where "r = X * (8401191 / 8388608)"
  define f where "f = f32_round r"
  have X1: "1 \<le> X" using assms(1) by (simp add: X_def)
  have X24: "X < 2 ^ 24"
  proof -
    have "X < of_int (2 ^ 24)" unfolding X_def using assms(2) by (simp only: of_int_less_iff)
    then show ?thesis by simp
  qed
  have ex: "f32_of_int x = X"
    unfolding f32_of_int_def X_def using assms by (intro f32_round_of_int_exact) simp_all
  have prod: "f32_mul (f32_of_int x) f32_lit_1_0015 = f"
    by (simp add: f32_mul_def ex f32_lit_1_0015_value f_def r_def)
  have r_lo: "X \<le> r" and r_hi: "r \<le> X * 2"
    using X1 by (simp_all add: r_def)
  have "pow2 (- 126) \<le> pow2 0" by (rule pow2_mono) simp
  moreover have "pow2 0 = 1" by (simp add: pow2_def)
  ultimately have lo: "pow2 (- 126) \<le> r" using X1 r_lo by linarith
  have "pow2 25 \<le> pow2 128" by (rule pow2_mono) simp
  moreover have "pow2 25 = 2 ^ 25" by (simp add: pow2_def)
  moreover have "r < 2 ^ 25" using r_hi X24 X1 by simp
  ultimately have hi: "r < pow2 128" by linarith
  have err: "\<bar>f - r\<bar> \<le> r / 2 ^ 24"
    unfolding f_def using lo hi by (rule f32_round_error)
  have down: "X \<le> r - r / 2 ^ 24"
    using X1 by (simp add: r_def)
  have up: "r + r / 2 ^ 24 \<le> X * (1002 / 1000)"
    using X1 by (simp add: r_def)
  from err down have f_lo: "X \<le> f" by linarith
  from err up have f_hi: "f \<le> X * (1002 / 1000)" by linarith
  have f0: "0 \<le> f" using f_lo X1 by linarith
  define fl where "fl = \<lfloor>f\<rfloor>"
  have fl_lo: "x \<le> fl"
    using f_lo by (simp add: le_floor_iff X_def fl_def)
  have "of_int fl \<le> f" by (simp add: fl_def)
  with f_hi have "(of_int fl :: rat) * 1000 \<le> X * 1002" by linarith
  then have "(of_int (fl * 1000) :: rat) \<le> of_int (x * 1002)"
    by (simp add: X_def)
  then have fl_hi: "fl * 1000 \<le> x * 1002" by (simp only: of_int_le_iff)
  have x24: "x < 16777216" using assms(2) by simp
  have "fl < 18446744073709551616" using fl_hi x24 by linarith
  then have "fl < 2 ^ 64" by simp
  moreover have "0 \<le> fl" using fl_lo assms(1) by simp
  ultimately have "u64 fl = fl" by (rule u64_id [rotated])
  then have "u64_of_f32 f = fl"
    using f0 by (simp add: u64_of_f32_def fl_def)
  with prod fl_lo fl_hi
  show "x \<le> u64_of_f32 (f32_mul (f32_of_int x) f32_lit_1_0015)"
    and "u64_of_f32 (f32_mul (f32_of_int x) f32_lit_1_0015) * 1000 \<le> x * 1002"
    by simp_all
qed

lemma sleepMinutes_of_valid_clock:
  assumes "valid_clock ti" "0 \<le> wake" "wake < 24"
  shows "sleepMinutes wake ti =
           30 - tm_min ti mod 30 + (if 1680 < offsetSeconds wake ti then 30 else 0)"
    and "sleepMinutes wake ti * 60 - tm_sec ti =
           1800 - offsetSeconds wake ti + (if 1680 < offsetSeconds wake ti then 1800 else 0)"
proof -
  show m: "sleepMinutes wake ti =
           30 - tm_min ti mod 30 + (if 1680 < offsetSeconds wake ti then 30 else 0)"
    by (simp add: sleepMinutes_def Let_def skipAhead_iff [OF assms]
        offsets_of_valid_clock(1) [OF assms] SLEEP_DURATION_def)
  show "sleepMinutes wake ti * 60 - tm_sec ti =
           1800 - offsetSeconds wake ti + (if 1680 < offsetSeconds wake ti then 1800 else 0)"
    unfolding m by (simp add: offsets_of_valid_clock(2) [OF assms])
qed

lemma sleepDuration_bounds:
  assumes "valid_clock ti" "0 \<le> wake" "wake < 24"
  shows "sleepMinutes wake ti * 60 - tm_sec ti + 3 \<le> sleepDuration wake ti"
    and "sleepDuration wake ti * 1000 \<le> (sleepMinutes wake ti * 60 - tm_sec ti + 3) * 1002"
    and "120 \<le> sleepMinutes wake ti * 60 - tm_sec ti"
    and "sleepMinutes wake ti * 60 - tm_sec ti < 1920"
proof -
  define base where "base = sleepMinutes wake ti * 60 - tm_sec ti"
  have rng: "0 \<le> offsetSeconds wake ti" "offsetSeconds wake ti < 1800"
    using offsetSeconds_range [OF assms] by simp_all
  have base_eq: "base =
      1800 - offsetSeconds wake ti + (if 1680 < offsetSeconds wake ti then 1800 else 0)"
    unfolding base_def by (rule sleepMinutes_of_valid_clock(2) [OF assms])
  have b: "120 \<le> base" "base < 1920"
    using rng unfolding base_eq by (simp_all split: if_splits)
  have "u64 base = base" using b by (intro u64_id) simp_all
  moreover have "u64 (base + 3) = base + 3" using b by (intro u64_id) simp_all
  ultimately have sd: "sleepDuration wake ti =
      u64_of_f32 (f32_mul (f32_of_int (base + 3)) f32_lit_1_0015)"
    by (simp add: sleepDuration_def Let_def base_def)
  have x: "1 \<le> base + 3" "base + 3 < 2 ^ 24" using b by simp_all
  from compensate_bounds [OF x] b
  show "sleepMinutes wake ti * 60 - tm_sec ti + 3 \<le> sleepDuration wake ti"
    and "sleepDuration wake ti * 1000 \<le> (sleepMinutes wake ti * 60 - tm_sec ti + 3) * 1002"
    and "120 \<le> sleepMinutes wake ti * 60 - tm_sec ti"
    and "sleepMinutes wake ti * 60 - tm_sec ti < 1920"
    unfolding sd base_def [symmetric] by simp_all
qed

section \<open>Strategy B reaches the boundary\<close>

text \<open>
  Claim C2. For every wake time (hour, minute and second in range) and every reference
  hour from 0 to 23, with the period of 30 minutes, the duration computed by the
  arithmetic of \<open>beginDeepSleep\<close> (phase offset, skip-ahead, 3 seconds added, multiplied
  by \<open>1.0015f\<close> in single precision and truncated) is positive, and the current time plus
  that duration is at or after the next boundary: the least instant after the current
  time that is a whole number of periods away from the reference hour.
\<close>

theorem sleepDuration_reaches_next_boundary:
  assumes "valid_clock ti" "0 \<le> wake" "wake < 24"
  shows "0 < sleepDuration wake ti
       \<and> is_boundary wake (next_boundary wake ti)
       \<and> nowSeconds ti < next_boundary wake ti
       \<and> (\<forall>b. is_boundary wake b \<and> nowSeconds ti < b \<longrightarrow> next_boundary wake ti \<le> b)
       \<and> next_boundary wake ti \<le> nowSeconds ti + sleepDuration wake ti"
proof -
  let ?o = "offsetSeconds wake ti"
  define a where "a = nowSeconds ti - wake * 3600"
  have el: "elapsedSeconds wake ti = ?o"
    by (simp add: offsets_of_valid_clock [OF assms])
  have el_a: "elapsedSeconds wake ti = a mod 1800"
    by (simp add: elapsedSeconds_def SLEEP_DURATION_def a_def)
  have rng: "0 \<le> ?o" "?o < 1800"
    using offsetSeconds_range [OF assms] by simp_all
  have nb: "next_boundary wake ti = nowSeconds ti + 1800 - ?o"
    by (simp add: next_boundary_def remainingSeconds_def el SLEEP_DURATION_def)
  have base: "1800 - ?o \<le> sleepMinutes wake ti * 60 - tm_sec ti"
    unfolding sleepMinutes_of_valid_clock(2) [OF assms] by simp
  have dur: "sleepMinutes wake ti * 60 - tm_sec ti + 3 \<le> sleepDuration wake ti"
    by (rule sleepDuration_bounds(1) [OF assms])
  have positive: "0 < sleepDuration wake ti"
    using base dur rng by linarith
  have reaches: "next_boundary wake ti \<le> nowSeconds ti + sleepDuration wake ti"
    using base dur nb by linarith
  have after: "nowSeconds ti < next_boundary wake ti"
    using nb rng by linarith
  have "next_boundary wake ti - wake * 3600 = a - a mod 1800 + 1800"
    using nb el el_a by (simp add: a_def)
  also have "\<dots> = (a div 1800 + 1) * 1800"
    by (simp add: minus_mod_eq_div_mult algebra_simps)
  finally have boundary: "is_boundary wake (next_boundary wake ti)"
    by (simp add: is_boundary_def SLEEP_DURATION_def)
  have least: "next_boundary wake ti \<le> b" if b: "is_boundary wake b" "nowSeconds ti < b" for b
  proof -
    from b(1) have "(b - wake * 3600) mod 1800 = 0"
      by (simp add: is_boundary_def SLEEP_DURATION_def)
    moreover from b(2) have "a < b - wake * 3600" by (simp add: a_def)
    ultimately have "a + 1800 - a mod 1800 \<le> b - wake * 3600"
      by (rule next_multiple_least)
    then show ?thesis using nb el el_a by (simp add: a_def)
  qed
  show ?thesis using positive boundary after least reaches by auto
qed

theorem sleepDuration_reaches_next_boundary_witness:
  "0 < sleepDuration WAKE_TIME (clock_reading 6 1 0)
 \<and> is_boundary WAKE_TIME (next_boundary WAKE_TIME (clock_reading 6 1 0))
 \<and> nowSeconds (clock_reading 6 1 0) < next_boundary WAKE_TIME (clock_reading 6 1 0)
 \<and> next_boundary WAKE_TIME (clock_reading 6 1 0)
     \<le> nowSeconds (clock_reading 6 1 0) + sleepDuration WAKE_TIME (clock_reading 6 1 0)"
proof -
  have v: "valid_clock (clock_reading 6 1 0)"
    by (simp add: valid_clock_def clock_reading_def zero_tm_def)
  have w: "0 \<le> WAKE_TIME" "WAKE_TIME < 24"
    by (simp_all add: WAKE_TIME_def)
  note t = sleepDuration_reaches_next_boundary [OF v w]
  show ?thesis
    using t [THEN conjunct1] t [THEN conjunct2, THEN conjunct1]
      t [THEN conjunct2, THEN conjunct2, THEN conjunct1]
      t [THEN conjunct2, THEN conjunct2, THEN conjunct2, THEN conjunct2]
    by (intro conjI)
qed

section \<open>The wake cycle of the slot-check sketch\<close>

lemma timers_append: "timers (xs @ ys) = timers xs @ timers ys"
  by (induction xs rule: timers.induct) simp_all

lemma syncTime_at_once:
  "1700000000 < epoch_at e (uptime d) \<Longrightarrow> syncTime e d = (True, d)"
  by (simp add: syncTime_def eval_nat_numeral Let_def)

lemma initBME_result:
  "initBME e d =
     (bme_begin e,
      d\<lparr>uptime := uptime d + 50, pwr_pin := True,
        trace := trace d @ [PowerPin True, BmeBegin]
                 @ (if bme_begin e then []
                    else [Print ''[BME] BME280 not found at given address.''])\<rparr>)"
  by (simp add: initBME_def Let_def device_ops)

text \<open>
  Claim C8. For every status code that \<open>http.POST\<close> returns, \<open>postToSupabase\<close> reports
  success exactly when the code is 200, 201 or 204, reports failure for every other code
  (those at or below zero included), and returns the code itself to its caller.
\<close>

theorem postToSupabase_classifies_status:
  assumes "http_begin e"
  shows "fst (postToSupabase e d) = http_POST e
       \<and> trace (snd (postToSupabase e d)) =
           trace d @ [HttpPost,
                      if http_POST e = 200 \<or> http_POST e = 201 \<or> http_POST e = 204
                      then PostSuccess (http_POST e) else PostFailed (http_POST e)]
       \<and> (last (trace (snd (postToSupabase e d))) = PostSuccess (http_POST e)
            \<longleftrightarrow> http_POST e = 200 \<or> http_POST e = 201 \<or> http_POST e = 204)
       \<and> (last (trace (snd (postToSupabase e d))) = PostFailed (http_POST e)
            \<longleftrightarrow> \<not> (http_POST e = 200 \<or> http_POST e = 201 \<or> http_POST e = 204))"
  using assms by (auto simp: postToSupabase_def Let_def emit_def)

theorem postToSupabase_classifies_status_witness:
  "fst (postToSupabase env_ten_oclock boot) = 201
 \<and> trace (snd (postToSupabase env_ten_oclock boot)) = [HttpPost, PostSuccess 201]
 \<and> fst (postToSupabase (env_ten_oclock\<lparr>http_POST := - 1\<rparr>) boot) = - 1
 \<and> trace (snd (postToSupabase (env_ten_oclock\<lparr>http_POST := - 1\<rparr>) boot))
     = [HttpPost, PostFailed (- 1)]"
proof -
  have h: "http_begin env_ten_oclock" "http_begin (env_ten_oclock\<lparr>http_POST := - 1\<rparr>)"
    by (simp_all add: env_ten_oclock_def)
  have v: "http_POST env_ten_oclock = 201" "http_POST (env_ten_oclock\<lparr>http_POST := - 1\<rparr>) = - 1"
    "trace boot = []"
    by (simp_all add: env_ten_oclock_def boot_def)
  show ?thesis
    using postToSupabase_classifies_status [OF h(1), of boot]
      postToSupabase_classifies_status [OF h(2), of boot]
    unfolding v by simp
qed

text \<open>
  Claim C4, as the code has it. \<open>deepSleepSeconds\<close> raises a request below 10 seconds to
  10 seconds and leaves every other request as it is: the duration it programs is the
  larger of the request and 10 seconds, so never below the minimum of 10 seconds. At
  10:29:50 the boundary 10:30:00 is 10 seconds away; that is not below the minimum, and
  10 seconds is what is programmed. (The request is a \<open>uint64_t\<close>; the bound on it keeps
  the product with 1000000 within 64 bits.)
\<close>

theorem deepSleepSeconds_minimum:
  assumes "0 \<le> seconds" "seconds * 1000000 < 2 ^ 64"
  shows "timers (trace (deepSleepSeconds seconds d)) = timers (trace d) @ [max seconds 10 * 1000000]
       \<and> 10 * 1000000 \<le> max seconds 10 * 1000000
       \<and> timers (trace (deepSleepSeconds (secondsUntilNextHalfHourBoundary 1700044190) d))
           = timers (trace d) @ [10 * 1000000]"
proof -
  have small: "u64 (10 * 1000000) = 10 * 1000000"
    by (simp add: u64_def)
  have big: "u64 (seconds * 1000000) = seconds * 1000000"
    using assms by (intro u64_id) simp_all
  have general: "timers (trace (deepSleepSeconds seconds d))
      = timers (trace d) @ [max seconds 10 * 1000000]"
    using small big
    by (simp add: deepSleepSeconds_def Let_def emit_def timers_append max_def)
  have "nextHalfHourBoundary 1700044190 = 1700044200"
    by (simp add: nextHalfHourBoundary_def c_div_def)
  then have ten: "secondsUntilNextHalfHourBoundary 1700044190 = 10"
    by (simp add: secondsUntilNextHalfHourBoundary_def u64_def)
  have scenario: "timers (trace (deepSleepSeconds (secondsUntilNextHalfHourBoundary 1700044190) d))
      = timers (trace d) @ [10 * 1000000]"
    unfolding ten using small
    by (simp add: deepSleepSeconds_def Let_def emit_def timers_append)
  show ?thesis using general scenario by simp
qed

theorem deepSleepSeconds_minimum_witness:
  "timers (trace (deepSleepSeconds 3 boot)) = [10000000]
 \<and> timers (trace (deepSleepSeconds 780 boot)) = [780000000]"
proof -
  have b: "timers (trace boot) = []" by (simp add: boot_def)
  have "(0::int) \<le> 3" "(3::int) * 1000000 < 2 ^ 64" by simp_all
  from deepSleepSeconds_minimum [OF this, of boot, THEN conjunct1]
  have a3: "timers (trace (deepSleepSeconds 3 boot)) = [10000000]"
    unfolding b by simp
  have "(0::int) \<le> 780" "(780::int) * 1000000 < 2 ^ 64" by simp_all
  from deepSleepSeconds_minimum [OF this, of boot, THEN conjunct1]
  have a780: "timers (trace (deepSleepSeconds 780 boot)) = [780000000]"
    unfolding b by simp
  show ?thesis using a3 a780 by (intro conjI)
qed

text \<open>
  The scenario of the specification at 10:29:50 on 15 November 2023 (epoch 1700044190):
  the request is 10 seconds, the test \<open>seconds < 10\<close> is false, and the timer is
  programmed with 10 seconds.
\<close>

theorem deepSleepSeconds_ten_seconds_counterexample:
  "secondsUntilNextHalfHourBoundary 1700044190 = 10
 \<and> nextHalfHourBoundary 1700044190 = 1700044200
 \<and> \<not> secondsUntilNextHalfHourBoundary 1700044190 < 10
 \<and> timers (trace (deepSleepSeconds (secondsUntilNextHalfHourBoundary 1700044190) boot))
     = [10 * 1000000]"
proof -
  have nb: "nextHalfHourBoundary 1700044190 = 1700044200"
    by (simp add: nextHalfHourBoundary_def c_div_def)
  then have ten: "secondsUntilNextHalfHourBoundary 1700044190 = 10"
    by (simp add: secondsUntilNextHalfHourBoundary_def u64_def)
  show ?thesis unfolding ten nb
    by (simp add: deepSleepSeconds_def Let_def emit_def boot_def u64_def)
qed

lemma postToSupabase_frame:
  "pwr_pin (snd (postToSupabase e d)) = pwr_pin d
 \<and> uptime (snd (postToSupabase e d)) = uptime d
 \<and> (\<exists>evs. trace (snd (postToSupabase e d)) = trace d @ evs)"
  by (simp add: postToSupabase_def Let_def emit_def)

lemma postToSupabase_take:
  assumes "n \<le> length (trace d)"
  shows "take n (trace (snd (postToSupabase e d))) = take n (trace d)"
    and "n \<le> length (trace (snd (postToSupabase e d)))"
  using assms by (simp_all add: postToSupabase_def Let_def emit_def)

lemma deepSleepSeconds_take:
  "n \<le> length (trace d) \<Longrightarrow> take n (trace (deepSleepSeconds s d)) = take n (trace d)"
  by (simp add: deepSleepSeconds_frame)

text \<open>
  Claim C9. In the slot-check sketch, once WiFi is connected and \<open>syncTime\<close> has
  succeeded: if the minute of the current local time is neither 0 nor 30, the cycle goes
  straight to \<open>deepSleepSeconds\<close> with the seconds to the next epoch-aligned half-hour
  boundary (Strategy A), and nothing else happens in the cycle: the sensor is neither
  powered nor read. If the minute is 0 or 30, the cycle goes on to \<open>initBME\<close>, which
  powers the sensor and, when the sensor answers, to the two readings.
\<close>

theorem slot_check_gates_sensor:
  assumes "connectWiFi e (delay 200 boot) = (True, d1)" "syncTime e d1 = (True, d2)"
  shows "(tm_min (localtime_r e (epoch_at e (uptime d2))) \<noteq> 0
          \<and> tm_min (localtime_r e (epoch_at e (uptime d2))) \<noteq> 30 \<longrightarrow>
            setup_slot_check e
              = deepSleepSeconds (secondsUntilNextHalfHourBoundary (epoch_at e (uptime d2))) d2
          \<and> trace (setup_slot_check e)
              = [TimerWakeup
                   (max 10 (secondsUntilNextHalfHourBoundary (epoch_at e (uptime d2))) * 1000000),
                 DeepSleepStart]
          \<and> \<not> pwr_pin (setup_slot_check e))
       \<and> (tm_min (localtime_r e (epoch_at e (uptime d2))) = 0
          \<or> tm_min (localtime_r e (epoch_at e (uptime d2))) = 30 \<longrightarrow>
            take 2 (trace (setup_slot_check e)) = [PowerPin True, BmeBegin]
          \<and> (bme_begin e \<longrightarrow>
                take 5 (trace (setup_slot_check e))
                  = [PowerPin True, BmeBegin, ReadTemperature, ReadHumidity, PowerPin False]))"
proof -
  let ?now = "epoch_at e (uptime d2)"
  have d1: "trace d1 = []" "pwr_pin d1 = False"
    using connectWiFi_True [OF assms(1)] by (simp_all add: boot_def delay_def)
  have sync: "trace d2 = trace d1" "pwr_pin d2 = pwr_pin d1" "1700000000 < ?now"
    using syncTime_poll_True [of 40 e d1 d2] assms(2) by (simp_all add: syncTime_def)
  have d2: "trace d2 = []" "pwr_pin d2 = False"
    using d1 sync by simp_all
  have now0: "0 \<le> ?now" using sync(3) by simp
  have secs: "1 \<le> secondsUntilNextHalfHourBoundary ?now"
    "secondsUntilNextHalfHourBoundary ?now \<le> 1800"
  proof -
    have diff: "nextHalfHourBoundary ?now - ?now = 1800 - ?now mod 1800"
      using now0 by (rule nextHalfHourBoundary_diff)
    have "0 \<le> ?now mod 1800" "?now mod 1800 < 1800" by simp_all
    with diff have r: "1 \<le> nextHalfHourBoundary ?now - ?now"
      "nextHalfHourBoundary ?now - ?now \<le> 1800" by linarith+
    then have "u64 (nextHalfHourBoundary ?now - ?now) = nextHalfHourBoundary ?now - ?now"
      by (intro u64_id) simp_all
    moreover from r have "\<not> nextHalfHourBoundary ?now \<le> ?now" by simp
    ultimately have "secondsUntilNextHalfHourBoundary ?now = nextHalfHourBoundary ?now - ?now"
      by (simp add: secondsUntilNextHalfHourBoundary_def Let_def)
    with r show "1 \<le> secondsUntilNextHalfHourBoundary ?now"
      "secondsUntilNextHalfHourBoundary ?now \<le> 1800" by simp_all
  qed
  have timer: "u64 ((if secondsUntilNextHalfHourBoundary ?now < 10 then 10
                     else secondsUntilNextHalfHourBoundary ?now) * 1000000)
      = max 10 (secondsUntilNextHalfHourBoundary ?now) * 1000000"
  proof -
    have "(if secondsUntilNextHalfHourBoundary ?now < 10 then 10
           else secondsUntilNextHalfHourBoundary ?now)
        = max 10 (secondsUntilNextHalfHourBoundary ?now)"
      by (simp add: max_def)
    moreover have "u64 (max 10 (secondsUntilNextHalfHourBoundary ?now) * 1000000)
        = max 10 (secondsUntilNextHalfHourBoundary ?now) * 1000000"
      using secs by (intro u64_id) (simp_all add: max_def)
    ultimately show ?thesis by simp
  qed
  have off_slot: "setup_slot_check e = deepSleepSeconds (secondsUntilNextHalfHourBoundary ?now) d2"
    if "tm_min (localtime_r e ?now) \<noteq> 0" "tm_min (localtime_r e ?now) \<noteq> 30"
    using that assms by (simp add: setup_slot_check_def Let_def isMinuteSlot_def)
  have on_slot: "setup_slot_check e =
      (let (found, d) = initBME e d2
       in if \<not> found
          then deepSleepSeconds (secondsUntilNextHalfHourSlot e (epoch_at e (uptime d))) d
          else
            let d = readSensor d;
                d = powerDownBME d;
                (code, d) = postToSupabase e d
            in deepSleepSeconds (secondsUntilNextHalfHourBoundary (epoch_at e (uptime d))) d)"
    if "tm_min (localtime_r e ?now) = 0 \<or> tm_min (localtime_r e ?now) = 30"
    using that assms by (auto simp add: setup_slot_check_def Let_def isMinuteSlot_def)
  have part1: "trace (setup_slot_check e)
              = [TimerWakeup (max 10 (secondsUntilNextHalfHourBoundary ?now) * 1000000),
                 DeepSleepStart]
          \<and> \<not> pwr_pin (setup_slot_check e)"
    if "tm_min (localtime_r e ?now) \<noteq> 0" "tm_min (localtime_r e ?now) \<noteq> 30"
    unfolding off_slot [OF that]
    using deepSleepSeconds_frame [of "secondsUntilNextHalfHourBoundary ?now" d2] timer d2
    by simp
  let ?dr = "powerDownBME (readSensor (snd (initBME e d2)))"
  have dr: "bme_begin e \<Longrightarrow> trace ?dr
      = [PowerPin True, BmeBegin, ReadTemperature, ReadHumidity, PowerPin False]"
    by (simp add: initBME_result d2 readSensor_def powerDownBME_def device_ops)
  have found: "bme_begin e \<Longrightarrow> setup_slot_check e =
      deepSleepSeconds
        (secondsUntilNextHalfHourBoundary (epoch_at e (uptime (snd (postToSupabase e ?dr)))))
        (snd (postToSupabase e ?dr))"
    if "tm_min (localtime_r e ?now) = 0 \<or> tm_min (localtime_r e ?now) = 30"
    unfolding on_slot [OF that] by (simp add: initBME_result Let_def split_beta)
  have part2b: "take 5 (trace (setup_slot_check e))
                  = [PowerPin True, BmeBegin, ReadTemperature, ReadHumidity, PowerPin False]"
    if slot: "tm_min (localtime_r e ?now) = 0 \<or> tm_min (localtime_r e ?now) = 30"
      and b: "bme_begin e"
  proof -
    have len: "5 \<le> length (trace ?dr)" by (simp add: dr [OF b])
    have "take 5 (trace (setup_slot_check e)) = take 5 (trace (snd (postToSupabase e ?dr)))"
      unfolding found [OF slot b]
      by (rule deepSleepSeconds_take) (rule postToSupabase_take(2) [OF len])
    also have "\<dots> = take 5 (trace ?dr)"
      by (rule postToSupabase_take(1) [OF len])
    finally show ?thesis by (simp add: dr [OF b])
  qed
  have part2a: "take 2 (trace (setup_slot_check e)) = [PowerPin True, BmeBegin]"
    if slot: "tm_min (localtime_r e ?now) = 0 \<or> tm_min (localtime_r e ?now) = 30"
  proof (cases "bme_begin e")
    case False
    then show ?thesis
      unfolding on_slot [OF slot]
      by (simp add: initBME_result d2 deepSleepSeconds_frame)
  next
    case True
    have "take 2 (take 5 (trace (setup_slot_check e))) = [PowerPin True, BmeBegin]"
      unfolding part2b [OF slot True] by simp
    then show ?thesis by simp
  qed
  show ?thesis using off_slot part1 part2a part2b by blast
qed

theorem slot_check_gates_sensor_witness:
  "trace (setup_slot_check env_ten_seventeen) = [TimerWakeup 780000000, DeepSleepStart]
 \<and> \<not> pwr_pin (setup_slot_check env_ten_seventeen)
 \<and> take 5 (trace (setup_slot_check env_ten_oclock))
     = [PowerPin True, BmeBegin, ReadTemperature, ReadHumidity, PowerPin False]"
proof -
  let ?d = "delay 200 boot"
  have up: "uptime ?d = 200" by (simp add: delay_def boot_def)
  have w17: "connectWiFi env_ten_seventeen ?d = (True, ?d)"
    by (rule connectWiFi_at_once) (simp add: env_ten_seventeen_def env_ten_oclock_def)
  have s17: "syncTime env_ten_seventeen ?d = (True, ?d)"
    by (rule syncTime_at_once) (simp add: env_ten_seventeen_def env_ten_oclock_def up)
  have now17: "epoch_at env_ten_seventeen (uptime ?d) = 1700043420"
    by (simp add: env_ten_seventeen_def env_ten_oclock_def up)
  have min17: "tm_min (localtime_r env_ten_seventeen 1700043420) = 17"
    by (simp add: env_ten_seventeen_def env_ten_oclock_def localtime_15_nov_2023_def)
  have secs17: "secondsUntilNextHalfHourBoundary 1700043420 = 780"
    by (simp add: secondsUntilNextHalfHourBoundary_def nextHalfHourBoundary_def c_div_def
        u64_def)
  have w00: "connectWiFi env_ten_oclock ?d = (True, ?d)"
    by (rule connectWiFi_at_once) (simp add: env_ten_oclock_def)
  have s00: "syncTime env_ten_oclock ?d = (True, ?d)"
    by (rule syncTime_at_once) (simp add: env_ten_oclock_def up)
  have now00: "epoch_at env_ten_oclock (uptime ?d) = 1700042400"
    by (simp add: env_ten_oclock_def up)
  have min00: "tm_min (localtime_r env_ten_oclock 1700042400) = 0"
    by (simp add: env_ten_oclock_def localtime_15_nov_2023_def)
  have b00: "bme_begin env_ten_oclock" by (simp add: env_ten_oclock_def)
  have off: "(17::int) \<noteq> 0 \<and> (17::int) \<noteq> 30" and on: "(0::int) = 0 \<or> (0::int) = 30"
    by simp_all
  note t17 = slot_check_gates_sensor [OF w17 s17, THEN conjunct1,
      unfolded now17 min17 secs17, THEN mp, OF off, THEN conjunct2]
  have a: "trace (setup_slot_check env_ten_seventeen) = [TimerWakeup 780000000, DeepSleepStart]
      \<and> \<not> pwr_pin (setup_slot_check env_ten_seventeen)"
    using t17 by simp
  note t00 = slot_check_gates_sensor [OF w00 s00, THEN conjunct2,
      unfolded now00 min00, THEN mp, OF on, THEN conjunct2, THEN mp, OF b00]
  have b: "take 5 (trace (setup_slot_check env_ten_oclock))
     = [PowerPin True, BmeBegin, ReadTemperature, ReadHumidity, PowerPin False]"
    using t00 by simp
  show ?thesis using a b by simp
qed

section \<open>The wake cycle of the phase-aligned sketch\<close>

lemma sleepDuration_of_valid_clock:
  assumes "valid_clock ti" "0 \<le> wake" "wake < 24"
  shows "sleepDuration wake ti =
           u64_of_f32 (f32_mul
             (f32_of_int (1803 - (tm_min ti mod 30 * 60 + tm_sec ti)
                + (if 1680 < tm_min ti mod 30 * 60 + tm_sec ti then 1800 else 0)))
             f32_lit_1_0015)"
proof -
  define base where "base = sleepMinutes wake ti * 60 - tm_sec ti"
  have b: "120 \<le> base" "base < 1920"
    using sleepDuration_bounds(3,4) [OF assms] by (simp_all add: base_def)
  have "u64 base = base" using b by (intro u64_id) simp_all
  moreover have "u64 (base + 3) = base + 3" using b by (intro u64_id) simp_all
  ultimately have "sleepDuration wake ti =
      u64_of_f32 (f32_mul (f32_of_int (base + 3)) f32_lit_1_0015)"
    by (simp add: sleepDuration_def Let_def base_def)
  moreover have "base + 3 = 1803 - (tm_min ti mod 30 * 60 + tm_sec ti)
        + (if 1680 < tm_min ti mod 30 * 60 + tm_sec ti then 1800 else 0)"
    unfolding base_def sleepMinutes_of_valid_clock(2) [OF assms]
      offsets_of_valid_clock(2) [OF assms] by simp
  ultimately show ?thesis by simp
qed

lemma compensate_1773: "u64_of_f32 (f32_mul (f32_of_int 1773) f32_lit_1_0015) = 1775"
proof -
  have "f32_of_int 1773 = 1773"
    using f32_round_of_int_exact [of 1773] by (simp add: f32_of_int_def)
  then have "f32_mul (f32_of_int 1773) f32_lit_1_0015 = f32_round (1773 * (8401191 / 8388608))"
    by (simp add: f32_mul_def f32_lit_1_0015_value)
  also have "\<dots> = 14546203 / 8192"
    by (subst f32_round_at [where e = 10]) (simp_all add: f32_eval)
  finally have v: "f32_mul (f32_of_int 1773) f32_lit_1_0015 = 14546203 / 8192" .
  show ?thesis unfolding u64_of_f32_def v by (simp add: floor_rat_numeral u64_def)
qed

lemma compensate_1803: "u64_of_f32 (f32_mul (f32_of_int 1803) f32_lit_1_0015) = 1805"
proof -
  have "f32_of_int 1803 = 1803"
    using f32_round_of_int_exact [of 1803] by (simp add: f32_of_int_def)
  then have "f32_mul (f32_of_int 1803) f32_lit_1_0015 = f32_round (1803 * (8401191 / 8388608))"
    by (simp add: f32_mul_def f32_lit_1_0015_value)
  also have "\<dots> = 14792331 / 8192"
    by (subst f32_round_at [where e = 10]) (simp_all add: f32_eval)
  finally have v: "f32_mul (f32_of_int 1803) f32_lit_1_0015 = 14792331 / 8192" .
  show ?thesis unfolding u64_of_f32_def v by (simp add: floor_rat_numeral u64_def)
qed

lemma getLocalTime_frame:
  "trace (snd (getLocalTime e ms d)) = trace d \<and> pwr_pin (snd (getLocalTime e ms d)) = pwr_pin d"
  by (simp add: getLocalTime_def getLocalTime_poll_frame)

lemma printLocalTime_no_retry:
  "printLocalTime e d =
     (if fst (getLocalTime e GETLOCALTIME_MS d)
      then (True, snd (getLocalTime e GETLOCALTIME_MS d))
      else (False, emit (Print ''Failed to get the time!'') (snd (getLocalTime e GETLOCALTIME_MS d))))"
  by (simp add: printLocalTime_def Let_def split_beta)

lemma printLocalTime_False:
  assumes "printLocalTime e d = (False, d')"
  shows "trace d' = trace d @ [Print ''Failed to get the time!''] \<and> pwr_pin d' = pwr_pin d"
  using assms getLocalTime_frame [of e GETLOCALTIME_MS d]
  by (auto simp: printLocalTime_no_retry emit_def split: if_splits)

lemma waitForSNTPSync_False:
  assumes "waitForSNTPSync e d = (False, d')"
  shows "trace d' = trace d @ [Print ''Failed to get the time!''] \<and> pwr_pin d' = pwr_pin d"
proof -
  let ?w = "if sntp_reset_at e (uptime d) \<and> uptime d < uptime d + NTP_TIMEOUT_MS
            then waitForSNTPSync_wait e (uptime d + NTP_TIMEOUT_MS) (delay 100 d) else d"
  have w: "trace ?w = trace d" "pwr_pin ?w = pwr_pin d"
    using waitForSNTPSync_wait_frame [of e "uptime d + NTP_TIMEOUT_MS" "delay 100 d"]
    by (simp_all add: delay_def)
  from assms have "printLocalTime e ?w = (False, d')"
    by (simp add: waitForSNTPSync_def Let_def)
  from printLocalTime_False [OF this] w show ?thesis by simp
qed

lemma waitForSNTPSync_fails:
  assumes "\<forall>t \<le> uptime d + NTP_TIMEOUT_MS + 100 + GETLOCALTIME_MS.
             tm_year (localtime_r e (epoch_at e t)) \<le> 2016 - 1900"
  shows "\<not> fst (waitForSNTPSync e d)"
proof -
  let ?timeout = "uptime d + NTP_TIMEOUT_MS"
  let ?w = "if sntp_reset_at e (uptime d) \<and> uptime d < ?timeout
            then waitForSNTPSync_wait e ?timeout (delay 100 d) else d"
  have w: "uptime ?w \<le> ?timeout + 100"
    using waitForSNTPSync_wait_uptime [of "delay 100 d" "?timeout + 100" ?timeout e]
    by (simp add: delay_def)
  have "\<not> fst (getLocalTime e GETLOCALTIME_MS ?w)"
  proof
    assume "fst (getLocalTime e GETLOCALTIME_MS ?w)"
    then obtain k where k: "k \<le> GETLOCALTIME_MS div 10"
      "2016 - 1900 < tm_year (localtime_r e (epoch_at e (uptime ?w + 10 * k)))"
      unfolding getLocalTime_succeeds_iff by blast
    from k(1) have "10 * k \<le> GETLOCALTIME_MS" by presburger
    with w have "uptime ?w + 10 * k \<le> uptime d + NTP_TIMEOUT_MS + 100 + GETLOCALTIME_MS"
      by linarith
    with assms have "tm_year (localtime_r e (epoch_at e (uptime ?w + 10 * k))) \<le> 2016 - 1900"
      by blast
    with k(2) show False by simp
  qed
  then show ?thesis
    by (simp add: waitForSNTPSync_def Let_def printLocalTime_no_retry)
qed

lemma beginDeepSleep_frame:
  "pwr_pin (beginDeepSleep e s d) = pwr_pin d
 \<and> timers (trace (beginDeepSleep e s d))
     = timers (trace d) @ [u64 (sleepDuration WAKE_TIME (timeInfo (beginDeepSleep e s d)) * 1000000)]
 \<and> (PowerPin v \<in> set (trace (beginDeepSleep e s d)) \<longleftrightarrow> PowerPin v \<in> set (trace d))
 \<and> timeInfo (beginDeepSleep e s d) = timeInfo (snd (getLocalTime e GETLOCALTIME_MS d))"
  using getLocalTime_frame [of e GETLOCALTIME_MS d]
  by (simp add: beginDeepSleep_def Let_def split_beta emit_def timers_append)

lemma emit_fields:
  "uptime (emit ev d) = uptime d" "pwr_pin (emit ev d) = pwr_pin d"
  "timeInfo (emit ev d) = timeInfo d" "trace (emit ev d) = trace d @ [ev]"
  by (simp_all add: emit_def)

lemma killWiFi_fields:
  "uptime (killWiFi d) = uptime d" "pwr_pin (killWiFi d) = pwr_pin d"
  "timeInfo (killWiFi d) = timeInfo d" "trace (killWiFi d) = trace d @ [KillWiFi]"
  by (simp_all add: killWiFi_def emit_def)

lemma boot_fields:
  "uptime boot = 0" "pwr_pin boot = False" "timeInfo boot = zero_tm" "trace boot = []"
  by (simp_all add: boot_def)

lemma beginDeepSleep_programs_sleepDuration:
  assumes "valid_clock (timeInfo (snd (getLocalTime e GETLOCALTIME_MS d)))"
  shows "timers (trace (beginDeepSleep e s d))
       = timers (trace d)
         @ [sleepDuration WAKE_TIME (timeInfo (snd (getLocalTime e GETLOCALTIME_MS d))) * 1000000]"
proof -
  let ?ti = "timeInfo (snd (getLocalTime e GETLOCALTIME_MS d))"
  define sd where "sd = sleepDuration WAKE_TIME ?ti"
  define base where "base = sleepMinutes WAKE_TIME ?ti * 60 - tm_sec ?ti"
  have wake: "0 \<le> WAKE_TIME" "WAKE_TIME < 24" by (simp_all add: WAKE_TIME_def)
  note b = sleepDuration_bounds [OF assms wake, folded sd_def base_def]
  have "0 \<le> sd" using b(1,3) by linarith
  moreover have "sd * 1000 \<le> base * 1002 + 3006" using b(2) by (simp add: algebra_simps)
  then have "sd < 1927" using b(4) by linarith
  ultimately have "u64 (sd * 1000000) = sd * 1000000"
    by (intro u64_id) simp_all
  then show ?thesis
    using beginDeepSleep_frame [of e s d True] by (simp add: sd_def)
qed

lemma never_synced_invalid:
  "\<forall>t \<le> n. tm_year (localtime_r env_never_synced (epoch_at env_never_synced t)) \<le> 116"
  by (simp add: env_never_synced_def localtime_1_jan_1970_def)

lemma never_synced_waitForSNTPSync:
  "waitForSNTPSync env_never_synced boot =
     (False, emit (Print ''Failed to get the time!'')
               (boot\<lparr>uptime := 25010, timeInfo := localtime_1_jan_1970 25\<rparr>))"
proof -
  let ?e = env_never_synced
  have reset: "\<forall>t. sntp_reset_at ?e t" by (simp add: env_never_synced_def)
  have "waitForSNTPSync_wait ?e 20000 (delay 100 boot)
      = (delay 100 boot)\<lparr>uptime := uptime (delay 100 boot) + 100 * 199\<rparr>"
    using reset by (rule waitForSNTPSync_wait_timeout) (simp_all add: delay_def boot_def)
  then have wait: "waitForSNTPSync_wait ?e 20000 (delay 100 boot) = boot\<lparr>uptime := 20000\<rparr>"
    by (simp add: delay_def boot_def)
  have "getLocalTime_poll ?e 20000 5000 (boot\<lparr>uptime := 20000\<rparr>)
      = (False, boot\<lparr>uptime := 20000\<rparr>
           \<lparr>uptime := uptime (boot\<lparr>uptime := 20000\<rparr>) + 10 * Suc 500,
            timeInfo := localtime_r ?e (epoch_at ?e (uptime (boot\<lparr>uptime := 20000\<rparr>) + 10 * 500))\<rparr>)"
    using never_synced_invalid by (rule getLocalTime_poll_timeout) simp_all
  then have poll: "getLocalTime ?e GETLOCALTIME_MS (boot\<lparr>uptime := 20000\<rparr>)
      = (False, boot\<lparr>uptime := 25010, timeInfo := localtime_1_jan_1970 25\<rparr>)"
    by (simp add: getLocalTime_def GETLOCALTIME_MS_def env_never_synced_def)
  show ?thesis
    using reset
    by (simp add: waitForSNTPSync_def Let_def NTP_TIMEOUT_MS_def boot_fields wait
        printLocalTime_no_retry poll)
qed

lemma never_synced_setup:
  "timeInfo (setup_phase_aligned env_never_synced) = localtime_1_jan_1970 30
 \<and> trace (setup_phase_aligned env_never_synced)
     = [Print ''Failed to get the time!'', Print ''Time Synchronization Failed'', KillWiFi,
        Print ''Failed to synchronize time before deep-sleep, referencing older time.'',
        TimerWakeup 1775000000, DeepSleepStart]"
proof -
  let ?e = env_never_synced
  let ?d = "killWiFi (emit (Print ''Time Synchronization Failed'')
      (emit (Print ''Failed to get the time!'')
         (boot\<lparr>uptime := 25010, timeInfo := localtime_1_jan_1970 25\<rparr>)))"
  have up: "uptime ?d = 25010" by (simp add: killWiFi_fields emit_fields)
  have wifi: "connectWiFi ?e boot = (True, boot)"
    by (rule connectWiFi_at_once) (simp add: env_never_synced_def)
  have run: "setup_phase_aligned ?e = beginDeepSleep ?e 0 ?d"
    by (simp add: setup_phase_aligned_def Let_def wifi never_synced_waitForSNTPSync
        boot_fields)
  have "getLocalTime_poll ?e 25010 5000 ?d
      = (False, ?d\<lparr>uptime := uptime ?d + 10 * Suc 500,
                   timeInfo := localtime_r ?e (epoch_at ?e (uptime ?d + 10 * 500))\<rparr>)"
    using never_synced_invalid by (rule getLocalTime_poll_timeout) (simp_all add: up)
  then have poll: "getLocalTime ?e GETLOCALTIME_MS ?d
      = (False, ?d\<lparr>uptime := 30020, timeInfo := localtime_1_jan_1970 30\<rparr>)"
    by (simp add: getLocalTime_def GETLOCALTIME_MS_def up env_never_synced_def)
  have valid: "valid_clock (localtime_1_jan_1970 30)"
    by (simp add: valid_clock_def localtime_1_jan_1970_def)
  have wake: "0 \<le> WAKE_TIME" "WAKE_TIME < 24" by (simp_all add: WAKE_TIME_def)
  have sd: "sleepDuration WAKE_TIME (localtime_1_jan_1970 30) = 1775"
    unfolding sleepDuration_of_valid_clock [OF valid wake]
    by (simp add: localtime_1_jan_1970_def compensate_1773)
  show ?thesis
    unfolding run
    by (simp add: beginDeepSleep_def Let_def poll emit_fields killWiFi_fields boot_fields sd
        u64_def)
qed

lemma beginDeepSleep_take:
  "n \<le> length (trace d) \<Longrightarrow> take n (trace (beginDeepSleep e s d)) = take n (trace d)"
  using getLocalTime_frame [of e GETLOCALTIME_MS d]
  by (simp add: beginDeepSleep_def Let_def split_beta emit_def)

lemma kept_clock_waitForSNTPSync:
  "waitForSNTPSync env_kept_clock boot
     = (True, boot\<lparr>uptime := 20000, timeInfo := localtime_15_nov_2023 1700042420\<rparr>)"
proof -
  let ?e = env_kept_clock
  have reset: "\<forall>t. sntp_reset_at ?e t" by (simp add: env_kept_clock_def)
  have "waitForSNTPSync_wait ?e 20000 (delay 100 boot)
      = (delay 100 boot)\<lparr>uptime := uptime (delay 100 boot) + 100 * 199\<rparr>"
    using reset by (rule waitForSNTPSync_wait_timeout) (simp_all add: delay_def boot_def)
  then have wait: "waitForSNTPSync_wait ?e 20000 (delay 100 boot) = boot\<lparr>uptime := 20000\<rparr>"
    by (simp add: delay_def boot_def)
  have t: "localtime_r ?e (epoch_at ?e (uptime (boot\<lparr>uptime := 20000\<rparr>)))
      = localtime_15_nov_2023 1700042420"
    by (simp add: env_kept_clock_def env_ten_oclock_def)
  have "116 < tm_year (localtime_r ?e (epoch_at ?e (uptime (boot\<lparr>uptime := 20000\<rparr>))))"
    unfolding t by (simp add: localtime_15_nov_2023_def)
  from getLocalTime_at_once [OF this, of GETLOCALTIME_MS]
  have got: "getLocalTime ?e GETLOCALTIME_MS (boot\<lparr>uptime := 20000\<rparr>)
      = (True, boot\<lparr>uptime := 20000, timeInfo := localtime_15_nov_2023 1700042420\<rparr>)"
    unfolding t by simp
  show ?thesis
    using reset
    by (simp add: waitForSNTPSync_def Let_def NTP_TIMEOUT_MS_def boot_fields wait
        printLocalTime_no_retry got)
qed

lemma kept_clock_setup:
  "take 5 (trace (setup_phase_aligned env_kept_clock))
     = [PowerPin True, BmeBegin, ReadTemperature, ReadHumidity, PowerPin False]"
proof -
  let ?e = env_kept_clock
  let ?d2 = "boot\<lparr>uptime := 20000, timeInfo := localtime_15_nov_2023 1700042420\<rparr>"
  let ?dr = "powerDownBME (readSensor (snd (initBME ?e ?d2)))"
  have b: "bme_begin ?e" by (simp add: env_kept_clock_def env_ten_oclock_def)
  have wifi: "connectWiFi ?e boot = (True, boot)"
    by (rule connectWiFi_at_once) (simp add: env_kept_clock_def env_ten_oclock_def)
  have dr: "trace ?dr = [PowerPin True, BmeBegin, ReadTemperature, ReadHumidity, PowerPin False]"
    using b by (simp add: initBME_result readSensor_def powerDownBME_def device_ops boot_fields)
  have run: "setup_phase_aligned ?e
      = beginDeepSleep ?e 0 (killWiFi (snd (postToSupabase ?e ?dr)))"
    using b
    by (simp add: setup_phase_aligned_def Let_def wifi kept_clock_waitForSNTPSync initBME_result
        split_beta boot_fields)
  have len: "5 \<le> length (trace ?dr)" by (simp add: dr)
  have len2: "5 \<le> length (trace (killWiFi (snd (postToSupabase ?e ?dr))))"
    using postToSupabase_take(2) [OF len, of ?e] by (simp add: killWiFi_fields)
  have "take 5 (trace (setup_phase_aligned ?e))
      = take 5 (trace (killWiFi (snd (postToSupabase ?e ?dr))))"
    unfolding run using len2 by (rule beginDeepSleep_take)
  also have "\<dots> = take 5 (trace (snd (postToSupabase ?e ?dr)))"
    using postToSupabase_take(2) [OF len, of ?e] by (simp add: killWiFi_fields)
  also have "\<dots> = take 5 (trace ?dr)"
    by (rule postToSupabase_take(1) [OF len])
  finally show ?thesis by (simp add: dr)
qed

text \<open>
  Claim C5, as the code has it. In the slot-check sketch, when WiFi is connected and none
  of the 40 polls of \<open>syncTime\<close> reads a time beyond the sanity threshold, the cycle logs
  the failure and programs a sleep of 60 seconds, and the sensor power pin is never
  driven. In the phase-aligned sketch the SNTP status decides nothing by itself:
  \<open>waitForSNTPSync\<close> reports what the clock reads after the wait. When WiFi is connected
  and the clock reads no year after 2016 until the SNTP wait and the polling of
  \<open>getLocalTime\<close> are over, \<open>waitForSNTPSync\<close> returns false, the cycle logs the failure and
  suspends through \<open>beginDeepSleep\<close>: the sleep programmed is the Strategy B duration
  computed from the time last read (not a fixed 60 seconds), and the sensor power pin is
  never driven.
\<close>

theorem time_sync_failure_paths:
  "(connectWiFi e (delay 200 boot) = (True, d1)
      \<and> (\<forall>i<40. epoch_at e (uptime d1 + 250 * i) \<le> 1700000000) \<longrightarrow>
        trace (setup_slot_check e)
          = [Print ''[TIME] NTP sync failed.'', TimerWakeup 60000000, DeepSleepStart]
      \<and> \<not> pwr_pin (setup_slot_check e))
 \<and> (connectWiFi e boot = (True, d1')
      \<and> (\<forall>t \<le> uptime d1' + NTP_TIMEOUT_MS + 100 + GETLOCALTIME_MS.
            tm_year (localtime_r e (epoch_at e t)) \<le> 2016 - 1900) \<longrightarrow>
        \<not> fst (waitForSNTPSync e d1')
      \<and> setup_phase_aligned e
          = beginDeepSleep e 0
              (killWiFi (emit (Print ''Time Synchronization Failed'')
                 (snd (waitForSNTPSync e d1'))))
      \<and> take 3 (trace (setup_phase_aligned e))
          = [Print ''Failed to get the time!'', Print ''Time Synchronization Failed'', KillWiFi]
      \<and> timers (trace (setup_phase_aligned e))
          = [u64 (sleepDuration WAKE_TIME (timeInfo (setup_phase_aligned e)) * 1000000)]
      \<and> PowerPin True \<notin> set (trace (setup_phase_aligned e))
      \<and> \<not> pwr_pin (setup_phase_aligned e))"
proof (intro conjI impI)
  assume a: "connectWiFi e (delay 200 boot) = (True, d1)
      \<and> (\<forall>i<40. epoch_at e (uptime d1 + 250 * i) \<le> 1700000000)"
  then have d1: "trace d1 = []" "pwr_pin d1 = False"
    using connectWiFi_True [of e "delay 200 boot" d1] by (simp_all add: boot_def delay_def)
  from a have never: "\<forall>i<40. epoch_at e (uptime d1 + 250 * i) \<le> 1700000000" by simp
  have sync: "syncTime e d1 =
      (False, emit (Print ''[TIME] NTP sync failed.'') (d1\<lparr>uptime := uptime d1 + 250 * 40\<rparr>))"
    unfolding syncTime_def using never by (rule syncTime_poll_never)
  have run: "setup_slot_check e = deepSleepSeconds 60
      (emit (Print ''[TIME] NTP sync failed.'') (d1\<lparr>uptime := uptime d1 + 250 * 40\<rparr>))"
    using a sync by (simp add: setup_slot_check_def Let_def)
  show "trace (setup_slot_check e)
          = [Print ''[TIME] NTP sync failed.'', TimerWakeup 60000000, DeepSleepStart]"
    unfolding run by (simp add: deepSleepSeconds_frame emit_def d1 u64_def)
  show "\<not> pwr_pin (setup_slot_check e)"
    unfolding run by (simp add: deepSleepSeconds_frame emit_def d1)
next
  assume b: "connectWiFi e boot = (True, d1')
      \<and> (\<forall>t \<le> uptime d1' + NTP_TIMEOUT_MS + 100 + GETLOCALTIME_MS.
            tm_year (localtime_r e (epoch_at e t)) \<le> 2016 - 1900)"
  then have d1: "trace d1' = []" "pwr_pin d1' = False"
    using connectWiFi_True [of e boot d1'] by (simp_all add: boot_def)
  from b have "\<forall>t \<le> uptime d1' + NTP_TIMEOUT_MS + 100 + GETLOCALTIME_MS.
            tm_year (localtime_r e (epoch_at e t)) \<le> 2016 - 1900" by simp
  then show failed: "\<not> fst (waitForSNTPSync e d1')"
    by (rule waitForSNTPSync_fails)
  let ?d2 = "snd (waitForSNTPSync e d1')"
  from failed have "waitForSNTPSync e d1' = (False, ?d2)"
    by (simp add: prod_eq_iff)
  note w = this
  from waitForSNTPSync_False [OF w] d1
  have d2: "trace ?d2 = [Print ''Failed to get the time!'']" "pwr_pin ?d2 = False"
    by simp_all
  let ?d = "killWiFi (emit (Print ''Time Synchronization Failed'') ?d2)"
  have d: "trace ?d = [Print ''Failed to get the time!'', Print ''Time Synchronization Failed'',
      KillWiFi]" "pwr_pin ?d = False"
    by (simp_all add: killWiFi_def emit_def d2)
  show run: "setup_phase_aligned e = beginDeepSleep e 0 ?d"
    using b failed by (simp add: setup_phase_aligned_def Let_def boot_def split_beta)
  note f = beginDeepSleep_frame [of e 0 ?d]
  have "take 3 (trace (beginDeepSleep e 0 ?d)) = take 3 (trace ?d)"
    by (rule beginDeepSleep_take) (simp add: d)
  then show "take 3 (trace (setup_phase_aligned e))
          = [Print ''Failed to get the time!'', Print ''Time Synchronization Failed'', KillWiFi]"
    unfolding run by (simp add: d)
  show "timers (trace (setup_phase_aligned e))
          = [u64 (sleepDuration WAKE_TIME (timeInfo (setup_phase_aligned e)) * 1000000)]"
    unfolding run using f [of True] by (simp add: d)
  show "PowerPin True \<notin> set (trace (setup_phase_aligned e))"
    unfolding run using f [of True] by (simp add: d)
  show "\<not> pwr_pin (setup_phase_aligned e)"
    unfolding run using f [of True] by (simp add: d)
qed

theorem time_sync_failure_paths_witness:
  "trace (setup_slot_check env_never_synced)
     = [Print ''[TIME] NTP sync failed.'', TimerWakeup 60000000, DeepSleepStart]
 \<and> \<not> pwr_pin (setup_slot_check env_never_synced)
 \<and> \<not> fst (waitForSNTPSync env_never_synced boot)
 \<and> take 3 (trace (setup_phase_aligned env_never_synced))
     = [Print ''Failed to get the time!'', Print ''Time Synchronization Failed'', KillWiFi]
 \<and> timers (trace (setup_phase_aligned env_never_synced))
     = [u64 (sleepDuration WAKE_TIME (timeInfo (setup_phase_aligned env_never_synced)) * 1000000)]
 \<and> PowerPin True \<notin> set (trace (setup_phase_aligned env_never_synced))
 \<and> \<not> pwr_pin (setup_phase_aligned env_never_synced)"
proof -
  let ?e = env_never_synced
  have wifiA: "connectWiFi ?e (delay 200 boot) = (True, delay 200 boot)"
    by (rule connectWiFi_at_once) (simp add: env_never_synced_def)
  have never: "\<forall>i<40. epoch_at ?e (uptime (delay 200 boot) + 250 * i) \<le> 1700000000"
  proof (intro allI impI)
    fix i :: nat
    have "int ((uptime (delay 200 boot) + 250 * i) div 1000) \<le> int (uptime (delay 200 boot) + 250 * i)"
      by (simp add: zdiv_int)
    moreover assume "i < 40"
    ultimately show "epoch_at ?e (uptime (delay 200 boot) + 250 * i) \<le> 1700000000"
      by (simp add: env_never_synced_def delay_def boot_def)
  qed
  have wifiB: "connectWiFi ?e boot = (True, boot)"
    by (rule connectWiFi_at_once) (simp add: env_never_synced_def)
  have invalid: "\<forall>t \<le> uptime boot + NTP_TIMEOUT_MS + 100 + GETLOCALTIME_MS.
      tm_year (localtime_r ?e (epoch_at ?e t)) \<le> 2016 - 1900"
    using never_synced_invalid [of "uptime boot + NTP_TIMEOUT_MS + 100 + GETLOCALTIME_MS"]
    by simp
  note a = time_sync_failure_paths [of ?e "delay 200 boot", THEN conjunct1, THEN mp,
      OF conjI, OF wifiA never]
  note b = time_sync_failure_paths [of ?e _ boot, THEN conjunct2, THEN mp,
      OF conjI, OF wifiB invalid]
  note b1 = b [THEN conjunct1]
  note b2 = b [THEN conjunct2, THEN conjunct2]
  show ?thesis using a b1 b2 by (intro conjI) simp_all
qed

text \<open>
  The claim as stated fails on the phase-aligned sketch in two ways. With a clock that
  never synchronizes, \<open>waitForSNTPSync\<close> returns false after its 20 s and 5 s waits and the
  sleep programmed is 1775 seconds, not 60. With the SNTP status
  \<open>SNTP_SYNC_STATUS_RESET\<close> for the whole wait but a valid time kept by the clock,
  \<open>waitForSNTPSync\<close> returns true and the cycle powers and reads the sensor.
\<close>

theorem time_sync_failure_sleep_counterexample:
  "fst (waitForSNTPSync env_never_synced (snd (connectWiFi env_never_synced boot))) = False
 \<and> timers (trace (setup_phase_aligned env_never_synced)) = [1775000000]
 \<and> timers (trace (setup_phase_aligned env_never_synced)) \<noteq> [60000000]
 \<and> (\<forall>t. sntp_reset_at env_kept_clock t)
 \<and> fst (waitForSNTPSync env_kept_clock (snd (connectWiFi env_kept_clock boot)))
 \<and> take 5 (trace (setup_phase_aligned env_kept_clock))
     = [PowerPin True, BmeBegin, ReadTemperature, ReadHumidity, PowerPin False]"
proof -
  have wifi: "connectWiFi env_never_synced boot = (True, boot)"
    by (rule connectWiFi_at_once) (simp add: env_never_synced_def)
  have wifi': "connectWiFi env_kept_clock boot = (True, boot)"
    by (rule connectWiFi_at_once) (simp add: env_kept_clock_def env_ten_oclock_def)
  have reset: "\<forall>t. sntp_reset_at env_kept_clock t" by (simp add: env_kept_clock_def)
  show ?thesis
    using reset
    by (simp add: wifi wifi' never_synced_waitForSNTPSync never_synced_setup
        kept_clock_waitForSNTPSync kept_clock_setup)
qed

section \<open>The skip-ahead rule and the duration chosen\<close>

lemma compensate_small:
  assumes "1 \<le> x" "x \<le> 122"
  shows "u64_of_f32 (f32_mul (f32_of_int x) f32_lit_1_0015) = x"
proof -
  define D where "D = u64_of_f32 (f32_mul (f32_of_int x) f32_lit_1_0015)"
  have "x < 2 ^ 24" using assms(2) by simp
  from compensate_bounds [OF assms(1) this, folded D_def]
  have "x \<le> D" "D * 1000 \<le> x * 1002" by simp_all
  with assms(2) have "D = x" by linarith
  then show ?thesis by (simp add: D_def)
qed

lemma compensate_after_skip:
  assumes "1804 \<le> x" "x \<le> 1922"
  shows "u64_of_f32 (f32_mul (f32_of_int x) f32_lit_1_0015) = x + 2"
proof -
  define X :: rat where "X = of_int x"
  define r :: rat where "r = X * (8401191 / 8388608)"
  define f where "f = f32_round r"
  have X_lo: "1804 \<le> X" and X_hi: "X \<le> 1922"
    using assms
    by (simp_all add: X_def of_int_le_iff [of 1804 x, where ?'a = rat, simplified]
        of_int_le_iff [of x 1922, where ?'a = rat, simplified])
  have ex: "f32_of_int x = X"
    unfolding f32_of_int_def X_def using assms by (intro f32_round_of_int_exact) simp_all
  have prod: "f32_mul (f32_of_int x) f32_lit_1_0015 = f"
    by (simp add: f32_mul_def ex f32_lit_1_0015_value f_def r_def)
  have r_lo: "X \<le> r" and r_hi: "r \<le> X * 2"
    using X_lo by (simp_all add: r_def)
  have "pow2 (- 126) \<le> pow2 0" by (rule pow2_mono) simp
  moreover have "pow2 0 = 1" by (simp add: pow2_def)
  ultimately have lo: "pow2 (- 126) \<le> r" using X_lo r_lo by linarith
  have "pow2 12 \<le> pow2 128" by (rule pow2_mono) simp
  moreover have "pow2 12 = 4096" by (simp add: pow2_def)
  ultimately have hi: "r < pow2 128" using r_hi X_hi by linarith
  have err: "\<bar>f - r\<bar> \<le> r / 2 ^ 24"
    unfolding f_def using lo hi by (rule f32_round_error)
  have down: "X + 2 \<le> r - r / 2 ^ 24"
    using X_lo by (simp add: r_def)
  have up: "r + r / 2 ^ 24 < X + 3"
    using X_hi by (simp add: r_def)
  from err down have f_lo: "X + 2 \<le> f" by linarith
  from err up have f_hi: "f < X + 3" by linarith
  have f0: "0 \<le> f" using f_lo X_lo by linarith
  have "of_int (x + 2) \<le> f" "f < of_int (x + 2) + 1"
    using f_lo f_hi by (simp_all add: X_def)
  then have fl: "\<lfloor>f\<rfloor> = x + 2" by (simp only: floor_eq_iff)
  have "u64 (x + 2) = x + 2" using assms by (intro u64_id) simp_all
  then show ?thesis
    unfolding prod using f0 by (simp add: u64_of_f32_def fl)
qed

lemma naiveSleepDuration_of_valid_clock:
  assumes "valid_clock ti" "0 \<le> wake" "wake < 24"
  shows "naiveSleepDuration wake ti =
           u64_of_f32 (f32_mul (f32_of_int (remainingSeconds wake ti + 3)) f32_lit_1_0015)"
    and "1 \<le> remainingSeconds wake ti" and "remainingSeconds wake ti \<le> 1800"
proof -
  have el: "elapsedSeconds wake ti = offsetSeconds wake ti"
    by (simp add: offsets_of_valid_clock [OF assms])
  have rng: "0 \<le> offsetSeconds wake ti" "offsetSeconds wake ti < 1800"
    using offsetSeconds_range [OF assms] by simp_all
  have rem: "remainingSeconds wake ti = 1800 - offsetSeconds wake ti"
    by (simp add: remainingSeconds_def el SLEEP_DURATION_def)
  show r: "1 \<le> remainingSeconds wake ti" "remainingSeconds wake ti \<le> 1800"
    using rng rem by simp_all
  have base: "(SLEEP_DURATION - offsetMinutes wake ti) * 60 - tm_sec ti
      = remainingSeconds wake ti"
    unfolding rem offsets_of_valid_clock(1,2) [OF assms] by (simp add: SLEEP_DURATION_def)
  have "u64 (remainingSeconds wake ti) = remainingSeconds wake ti"
    using r by (intro u64_id) simp_all
  moreover have "u64 (remainingSeconds wake ti + 3) = remainingSeconds wake ti + 3"
    using r by (intro u64_id) simp_all
  ultimately show "naiveSleepDuration wake ti =
           u64_of_f32 (f32_mul (f32_of_int (remainingSeconds wake ti + 3)) f32_lit_1_0015)"
    unfolding naiveSleepDuration_def Let_def base by simp
qed

lemma skip_ahead_rule_at_06_28_30: "skip_ahead_rule WAKE_TIME (clock_reading 6 28 30)"
  by (simp add: skip_ahead_rule_def elapsedFraction_def remainingSeconds_def
      elapsedSeconds_def nowSeconds_def clock_reading_def zero_tm_def WAKE_TIME_def
      SLEEP_DURATION_def)

lemma skip_ahead_rule_at_06_01_00: "\<not> skip_ahead_rule WAKE_TIME (clock_reading 6 1 0)"
  by (simp add: skip_ahead_rule_def elapsedFraction_def remainingSeconds_def
      elapsedSeconds_def nowSeconds_def clock_reading_def zero_tm_def WAKE_TIME_def
      SLEEP_DURATION_def)

text \<open>
  Claim C3, as the code has it. For every wake time and reference hour: the test the code
  makes agrees with the rule (elapsed fraction at least 0.95, or less than 120 seconds
  remaining). When the rule holds, exactly one period of \<open>SLEEP_DURATION\<close> minutes is added
  to \<open>sleepMinutes\<close>, before the conversion to seconds and the drift compensation; the
  duration chosen is the compensation of the naive seconds plus 1800, and it exceeds the
  naive duration by 1802 seconds, not by one period, because the compensation multiplies
  the added period too. When the rule does not hold, no period is added and the duration
  chosen is the naive one.
\<close>

theorem skip_ahead_adds_period_before_compensation:
  assumes "valid_clock ti" "0 \<le> wake" "wake < 24"
  shows "skipAhead wake ti = skip_ahead_rule wake ti
       \<and> sleepMinutes wake ti =
           (if skip_ahead_rule wake ti then naiveSleepMinutes wake ti + SLEEP_DURATION
            else naiveSleepMinutes wake ti)
       \<and> sleepDuration wake ti =
           u64_of_f32 (f32_mul
             (f32_of_int (remainingSeconds wake ti
                + (if skip_ahead_rule wake ti then SLEEP_DURATION * 60 else 0) + 3))
             f32_lit_1_0015)
       \<and> naiveSleepDuration wake ti =
           u64_of_f32 (f32_mul (f32_of_int (remainingSeconds wake ti + 3)) f32_lit_1_0015)
       \<and> sleepDuration wake ti =
           (if skip_ahead_rule wake ti then naiveSleepDuration wake ti + SLEEP_DURATION * 60 + 2
            else naiveSleepDuration wake ti)"
proof -
  let ?o = "offsetSeconds wake ti"
  have el: "elapsedSeconds wake ti = ?o"
    by (simp add: offsets_of_valid_clock [OF assms])
  have rng: "0 \<le> ?o" "?o < 1800"
    using offsetSeconds_range [OF assms] by simp_all
  have rem: "remainingSeconds wake ti = 1800 - ?o"
    by (simp add: remainingSeconds_def el SLEEP_DURATION_def)
  have rule: "skip_ahead_rule wake ti \<longleftrightarrow> 1680 < ?o"
    by (rule skip_ahead_rule_iff [OF assms])
  have agree: "skipAhead wake ti = skip_ahead_rule wake ti"
    by (simp add: skipAhead_iff [OF assms] rule)
  have minutes: "sleepMinutes wake ti =
           (if skip_ahead_rule wake ti then naiveSleepMinutes wake ti + SLEEP_DURATION
            else naiveSleepMinutes wake ti)"
    by (simp add: sleepMinutes_of_valid_clock(1) [OF assms] rule
        offsets_of_valid_clock(4) [OF assms] SLEEP_DURATION_def)
  have arg: "1803 - (tm_min ti mod 30 * 60 + tm_sec ti)
        + (if 1680 < tm_min ti mod 30 * 60 + tm_sec ti then 1800 else 0)
      = remainingSeconds wake ti
        + (if skip_ahead_rule wake ti then SLEEP_DURATION * 60 else 0) + 3"
    unfolding rule rem offsets_of_valid_clock(2) [OF assms] by (simp add: SLEEP_DURATION_def)
  have chosen: "sleepDuration wake ti =
           u64_of_f32 (f32_mul
             (f32_of_int (remainingSeconds wake ti
                + (if skip_ahead_rule wake ti then SLEEP_DURATION * 60 else 0) + 3))
             f32_lit_1_0015)"
    unfolding sleepDuration_of_valid_clock [OF assms] arg ..
  note naive = naiveSleepDuration_of_valid_clock(1) [OF assms]
  have compare: "sleepDuration wake ti =
           (if skip_ahead_rule wake ti then naiveSleepDuration wake ti + SLEEP_DURATION * 60 + 2
            else naiveSleepDuration wake ti)"
  proof (cases "skip_ahead_rule wake ti")
    case False
    then show ?thesis by (simp add: chosen naive)
  next
    case True
    with rule rng rem have r: "1 \<le> remainingSeconds wake ti" "remainingSeconds wake ti \<le> 119"
      by simp_all
    have n: "naiveSleepDuration wake ti = remainingSeconds wake ti + 3"
      unfolding naive using r by (intro compensate_small) simp_all
    have e: "remainingSeconds wake ti
          + (if skip_ahead_rule wake ti then SLEEP_DURATION * 60 else 0) + 3
        = remainingSeconds wake ti + 1803"
      using True by (simp add: SLEEP_DURATION_def)
    have "sleepDuration wake ti
        = u64_of_f32 (f32_mul (f32_of_int (remainingSeconds wake ti + 1803)) f32_lit_1_0015)"
      unfolding chosen e ..
    also have "\<dots> = remainingSeconds wake ti + 1803 + 2"
      using r by (intro compensate_after_skip) simp_all
    finally show ?thesis using True by (simp add: n SLEEP_DURATION_def)
  qed
  show ?thesis using agree minutes chosen naive compare by (intro conjI)
qed

theorem skip_ahead_adds_period_before_compensation_witness:
  "skipAhead WAKE_TIME (clock_reading 6 28 30)
 \<and> sleepMinutes WAKE_TIME (clock_reading 6 28 30)
     = naiveSleepMinutes WAKE_TIME (clock_reading 6 28 30) + SLEEP_DURATION
 \<and> sleepDuration WAKE_TIME (clock_reading 6 28 30)
     = naiveSleepDuration WAKE_TIME (clock_reading 6 28 30) + SLEEP_DURATION * 60 + 2
 \<and> \<not> skipAhead WAKE_TIME (clock_reading 6 1 0)
 \<and> sleepMinutes WAKE_TIME (clock_reading 6 1 0)
     = naiveSleepMinutes WAKE_TIME (clock_reading 6 1 0)
 \<and> sleepDuration WAKE_TIME (clock_reading 6 1 0)
     = naiveSleepDuration WAKE_TIME (clock_reading 6 1 0)"
proof -
  have v: "valid_clock (clock_reading 6 28 30)" "valid_clock (clock_reading 6 1 0)"
    by (simp_all add: valid_clock_def clock_reading_def zero_tm_def)
  have w: "0 \<le> WAKE_TIME" "WAKE_TIME < 24"
    by (simp_all add: WAKE_TIME_def)
  note late = skip_ahead_adds_period_before_compensation [OF v(1) w]
  note early = skip_ahead_adds_period_before_compensation [OF v(2) w]
  show ?thesis
    using late [THEN conjunct1] late [THEN conjunct2, THEN conjunct1]
      late [THEN conjunct2, THEN conjunct2, THEN conjunct2, THEN conjunct2]
      early [THEN conjunct1] early [THEN conjunct2, THEN conjunct1]
      early [THEN conjunct2, THEN conjunct2, THEN conjunct2, THEN conjunct2]
      skip_ahead_rule_at_06_28_30 skip_ahead_rule_at_06_01_00
    by simp
qed

text \<open>
  At 06:28:30 with the reference hour 6 the rule holds (90 seconds remain). The naive
  duration is 93 seconds and the duration chosen is 1895 seconds: 1802 seconds more, not
  the 1800 seconds of one period.
\<close>

theorem skip_ahead_one_period_counterexample:
  "skip_ahead_rule WAKE_TIME (clock_reading 6 28 30)
 \<and> naiveSleepDuration WAKE_TIME (clock_reading 6 28 30) = 93
 \<and> sleepDuration WAKE_TIME (clock_reading 6 28 30) = 1895
 \<and> sleepDuration WAKE_TIME (clock_reading 6 28 30)
     \<noteq> naiveSleepDuration WAKE_TIME (clock_reading 6 28 30) + SLEEP_DURATION * 60"
proof -
  let ?t = "clock_reading 6 28 30"
  have v: "valid_clock ?t"
    by (simp add: valid_clock_def clock_reading_def zero_tm_def)
  have w: "0 \<le> WAKE_TIME" "WAKE_TIME < 24"
    by (simp_all add: WAKE_TIME_def)
  have rem: "remainingSeconds WAKE_TIME ?t = 90"
    by (simp add: remainingSeconds_def elapsedSeconds_def nowSeconds_def clock_reading_def
        zero_tm_def WAKE_TIME_def SLEEP_DURATION_def)
  have "naiveSleepDuration WAKE_TIME ?t = u64_of_f32 (f32_mul (f32_of_int 93) f32_lit_1_0015)"
    unfolding naiveSleepDuration_of_valid_clock(1) [OF v w] rem by simp
  also have "\<dots> = 93" by (rule compensate_small) simp_all
  finally have n: "naiveSleepDuration WAKE_TIME ?t = 93" .
  have "sleepDuration WAKE_TIME ?t = u64_of_f32 (f32_mul (f32_of_int 1893) f32_lit_1_0015)"
    unfolding sleepDuration_of_valid_clock [OF v w]
    by (simp add: clock_reading_def zero_tm_def)
  also have "\<dots> = 1893 + 2" by (rule compensate_after_skip) simp_all
  finally have s: "sleepDuration WAKE_TIME ?t = 1895" by simp
  show ?thesis
    using skip_ahead_rule_at_06_28_30 by (simp add: n s SLEEP_DURATION_def)
qed

section \<open>Sensor power and the retry of the time read\<close>

text \<open>
  Claim C6 on the path where the sensor does not answer. With WiFi connected, the time
  valid and the minute 0, \<open>initBME\<close> drives the power pin high and \<open>bme.begin\<close> fails; both
  sketches then go to their deep sleep without \<open>powerDownBME\<close>, so the pin is still high
  when the device suspends and is never driven low in the cycle.
\<close>

theorem sensor_power_left_on_when_init_fails:
  "pwr_pin (setup_slot_check env_no_sensor)
 \<and> trace (setup_slot_check env_no_sensor)
     = [PowerPin True, BmeBegin, Print ''[BME] BME280 not found at given address.'',
        TimerWakeup 1800000000, DeepSleepStart]
 \<and> pwr_pin (setup_phase_aligned env_no_sensor)
 \<and> trace (setup_phase_aligned env_no_sensor)
     = [PowerPin True, BmeBegin, Print ''[BME] BME280 not found at given address.'',
        Print ''[BME] Init failed. Going to sleep.'', KillWiFi,
        TimerWakeup 1805000000, DeepSleepStart]"
proof -
  let ?e = env_no_sensor
  have e: "wifi_connected_at ?e = (\<lambda>t. True)" "sntp_reset_at ?e = (\<lambda>t. False)"
    "epoch_at ?e = (\<lambda>t. 1700042400 + int (t div 1000))"
    "localtime_r ?e = localtime_15_nov_2023" "mktime ?e = mktime_15_nov_2023"
    "\<not> bme_begin ?e"
    by (simp_all add: env_no_sensor_def env_ten_oclock_def)
  have ten: "localtime_15_nov_2023 1700042400
      = \<lparr>tm_sec = 0, tm_min = 0, tm_hour = 10, tm_mday = 15, tm_mon = 10, tm_year = 123,
         tm_wday = 3, tm_yday = 318, tm_isdst = 0\<rparr>"
    by (simp add: localtime_15_nov_2023_def)
  let ?d = "delay 200 boot"
  have up: "uptime ?d = 200" by (simp add: delay_def boot_def)
  have wifiA: "connectWiFi ?e ?d = (True, ?d)"
    by (rule connectWiFi_at_once) (simp add: e)
  have syncA: "syncTime ?e ?d = (True, ?d)"
    by (rule syncTime_at_once) (simp add: e up)
  have slot: "isMinuteSlot ?e 1700042400"
    by (simp add: isMinuteSlot_def e ten)
  have wait: "secondsUntilNextHalfHourSlot ?e 1700042400 = 1800"
    by (simp add: secondsUntilNextHalfHourSlot_def Let_def e ten mktime_15_nov_2023_def u64_def)
  have runA: "setup_slot_check ?e = deepSleepSeconds 1800
      (?d\<lparr>uptime := uptime ?d + 50, pwr_pin := True,
          trace := trace ?d @ [PowerPin True, BmeBegin]
                   @ [Print ''[BME] BME280 not found at given address.'']\<rparr>)"
    by (simp add: setup_slot_check_def Let_def wifiA syncA initBME_result)
      (simp add: e up slot wait)
  have a: "pwr_pin (setup_slot_check ?e)
      \<and> trace (setup_slot_check ?e)
          = [PowerPin True, BmeBegin, Print ''[BME] BME280 not found at given address.'',
             TimerWakeup 1800000000, DeepSleepStart]"
    unfolding runA by (simp add: deepSleepSeconds_frame delay_def boot_fields u64_def)
  have wifiB: "connectWiFi ?e boot = (True, boot)"
    by (rule connectWiFi_at_once) (simp add: e)
  have t0: "localtime_r ?e (epoch_at ?e (uptime boot)) = localtime_15_nov_2023 1700042400"
    by (simp add: e boot_fields)
  have "116 < tm_year (localtime_r ?e (epoch_at ?e (uptime boot)))"
    unfolding t0 by (simp add: ten)
  from getLocalTime_at_once [OF this, of GETLOCALTIME_MS]
  have got0: "getLocalTime ?e GETLOCALTIME_MS boot
      = (True, boot\<lparr>timeInfo := localtime_15_nov_2023 1700042400\<rparr>)"
    unfolding t0 .
  have syncB: "waitForSNTPSync ?e boot
      = (True, boot\<lparr>timeInfo := localtime_15_nov_2023 1700042400\<rparr>)"
    by (simp add: waitForSNTPSync_def Let_def e printLocalTime_no_retry got0)
  let ?f = "killWiFi (emit (Print ''[BME] Init failed. Going to sleep.'')
      (boot\<lparr>timeInfo := localtime_15_nov_2023 1700042400, uptime := 50, pwr_pin := True,
           trace := [PowerPin True, BmeBegin,
                     Print ''[BME] BME280 not found at given address.'']\<rparr>))"
  have runB: "setup_phase_aligned ?e = beginDeepSleep ?e 0 ?f"
    by (simp add: setup_phase_aligned_def Let_def wifiB syncB initBME_result e boot_fields)
  have upf: "uptime ?f = 50" by (simp add: killWiFi_fields emit_fields)
  have t50: "localtime_r ?e (epoch_at ?e (uptime ?f)) = localtime_15_nov_2023 1700042400"
    by (simp add: e upf)
  have "116 < tm_year (localtime_r ?e (epoch_at ?e (uptime ?f)))"
    unfolding t50 by (simp add: ten)
  from getLocalTime_at_once [OF this, of GETLOCALTIME_MS]
  have got50: "getLocalTime ?e GETLOCALTIME_MS ?f
      = (True, ?f\<lparr>timeInfo := localtime_15_nov_2023 1700042400\<rparr>)"
    unfolding t50 .
  have valid: "valid_clock (localtime_15_nov_2023 1700042400)"
    by (simp add: valid_clock_def ten)
  have wake: "0 \<le> WAKE_TIME" "WAKE_TIME < 24" by (simp_all add: WAKE_TIME_def)
  have sd: "sleepDuration WAKE_TIME (localtime_15_nov_2023 1700042400) = 1805"
    unfolding sleepDuration_of_valid_clock [OF valid wake]
    by (simp add: ten compensate_1803)
  have b: "pwr_pin (setup_phase_aligned ?e)
      \<and> trace (setup_phase_aligned ?e)
         = [PowerPin True, BmeBegin, Print ''[BME] BME280 not found at given address.'',
            Print ''[BME] Init failed. Going to sleep.'', KillWiFi,
            TimerWakeup 1805000000, DeepSleepStart]"
    unfolding runB
    by (simp add: beginDeepSleep_def Let_def got50 emit_fields killWiFi_fields sd u64_def)
  show ?thesis using a b by (intro conjI) simp_all
qed

text \<open>
  On the paths where the sensor answers, both sketches call \<open>powerDownBME\<close> right after the
  two readings and before the POST, so the pin is low at suspension whatever the POST
  returns.
\<close>

lemma sensor_power_released_after_read_slot_check:
  assumes "connectWiFi e (delay 200 boot) = (True, d1)" "syncTime e d1 = (True, d2)"
    and "isMinuteSlot e (epoch_at e (uptime d2))" "bme_begin e"
  shows "\<not> pwr_pin (setup_slot_check e)"
  using assms
  by (simp add: setup_slot_check_def Let_def initBME_result split_beta deepSleepSeconds_frame
      postToSupabase_frame powerDownBME_def readSensor_def device_ops)

lemma sensor_power_released_after_read_phase_aligned:
  assumes "connectWiFi e boot = (True, d1)" "waitForSNTPSync e d1 = (True, d2)"
    and "bme_begin e"
  shows "\<not> pwr_pin (setup_phase_aligned e)"
  using assms
  by (simp add: setup_phase_aligned_def Let_def initBME_result split_beta beginDeepSleep_frame
      postToSupabase_frame powerDownBME_def readSensor_def killWiFi_fields device_ops)

text \<open>
  Claim C7. Reading the current time rejects an invalid result and reads again, a
  bounded number of times, before it reports failure. In the slot-check sketch \<open>syncTime\<close>
  succeeds exactly when one of its 40 reads, 250 ms apart, is beyond the sanity threshold.
  In the phase-aligned sketch \<open>getLocalTime\<close> succeeds exactly when one of its reads, 10 ms
  apart while the timeout lasts (\<open>ms div 10 + 1\<close> of them, 501 for the 5000 ms that
  \<open>printLocalTime\<close> uses), gives a year after 2016, and \<open>printLocalTime\<close> reports what that
  call of \<open>getLocalTime\<close> reports. So one invalid read is not reported as failure: failure
  takes 40, respectively 501, invalid reads in a row.
\<close>

theorem time_read_retries_bounded:
  "(fst (syncTime e d) \<longleftrightarrow> (\<exists>i<40. 1700000000 < epoch_at e (uptime d + 250 * i)))
 \<and> (fst (getLocalTime e ms d) \<longleftrightarrow>
      (\<exists>k \<le> ms div 10. 2016 - 1900 < tm_year (localtime_r e (epoch_at e (uptime d + 10 * k)))))
 \<and> (fst (printLocalTime e d) \<longleftrightarrow>
      (\<exists>k \<le> 500. 2016 - 1900 < tm_year (localtime_r e (epoch_at e (uptime d + 10 * k)))))"
proof -
  have "fst (printLocalTime e d) = fst (getLocalTime e GETLOCALTIME_MS d)"
    by (simp add: printLocalTime_no_retry)
  moreover have "GETLOCALTIME_MS div 10 = 500" by (simp add: GETLOCALTIME_MS_def)
  ultimately show ?thesis
    using syncTime_poll_succeeds_iff [of 40 e d] getLocalTime_succeeds_iff [of e ms d]
      getLocalTime_succeeds_iff [of e GETLOCALTIME_MS d]
    by (simp add: syncTime_def)
qed

theorem time_read_retries_bounded_witness:
  "fst (printLocalTime env_late_clock (boot\<lparr>uptime := 5000\<rparr>))
 \<and> fst (getLocalTime env_late_clock GETLOCALTIME_MS (boot\<lparr>uptime := 5000\<rparr>))
 \<and> \<not> 2016 - 1900 < tm_year (localtime_r env_late_clock (epoch_at env_late_clock 5000))
 \<and> \<not> fst (printLocalTime env_late_clock boot)
 \<and> \<not> fst (syncTime env_never_synced boot)"
proof -
  let ?e = env_late_clock
  let ?d = "boot\<lparr>uptime := 5000\<rparr>"
  note t = time_read_retries_bounded [of ?e ?d GETLOCALTIME_MS]
  have first: "\<not> 2016 - 1900 < tm_year (localtime_r ?e (epoch_at ?e 5000))"
    by (simp add: env_late_clock_def localtime_1_jan_1970_def)
  have second: "2016 - 1900 < tm_year (localtime_r ?e (epoch_at ?e (uptime ?d + 10 * 1)))"
    by (simp add: env_late_clock_def localtime_15_nov_2023_def)
  have "\<exists>k \<le> 500. 2016 - 1900 < tm_year (localtime_r ?e (epoch_at ?e (uptime ?d + 10 * k)))"
    using second by (intro exI [of _ 1]) simp
  then have p: "fst (printLocalTime ?e ?d)"
    using t [THEN conjunct2, THEN conjunct2] by blast
  have "\<exists>k \<le> GETLOCALTIME_MS div 10.
      2016 - 1900 < tm_year (localtime_r ?e (epoch_at ?e (uptime ?d + 10 * k)))"
    using second by (intro exI [of _ 1]) (simp add: GETLOCALTIME_MS_def)
  then have g: "fst (getLocalTime ?e GETLOCALTIME_MS ?d)"
    using t [THEN conjunct2, THEN conjunct1] by blast
  have early: "\<not> 2016 - 1900 < tm_year (localtime_r ?e (epoch_at ?e (uptime boot + 10 * k)))"
    if "k \<le> 500" for k
  proof -
    from that have "10 * k < 5005" "(10 * k) div 1000 \<le> 5" by simp_all
    then have "int ((10 * k) div 1000) < 86400" by simp
    with \<open>10 * k < 5005\<close> show ?thesis
      by (simp add: env_late_clock_def boot_fields localtime_1_jan_1970_def)
  qed
  then have "\<not> (\<exists>k \<le> 500.
      2016 - 1900 < tm_year (localtime_r ?e (epoch_at ?e (uptime boot + 10 * k))))"
    by blast
  then have n: "\<not> fst (printLocalTime ?e boot)"
    using time_read_retries_bounded [of ?e boot GETLOCALTIME_MS, THEN conjunct2, THEN conjunct2]
    by blast
  have "\<not> 1700000000 < epoch_at env_never_synced (uptime boot + 250 * i)" if "i < 40" for i
  proof -
    have "int ((250 * i) div 1000) \<le> int (250 * i)" by (simp add: zdiv_int)
    with that show ?thesis by (simp add: env_never_synced_def boot_fields)
  qed
  then have "\<not> (\<exists>i<40. 1700000000 < epoch_at env_never_synced (uptime boot + 250 * i))"
    by blast
  then have s: "\<not> fst (syncTime env_never_synced boot)"
    using time_read_retries_bounded [of env_never_synced boot GETLOCALTIME_MS, THEN conjunct1]
    by blast
  show ?thesis using p g first n s by (intro conjI)
qed

text \<open>
  \<open>printLocalTime\<close> adds no retry of its own: it declares a counter of attempts with the
  bound 3, but the body of its loop returns, so it calls \<open>getLocalTime\<close> once. With a clock
  that turns valid just after the 5000 ms of that call, it reports failure although a
  second call would succeed.
\<close>

lemma printLocalTime_single_call:
  "printLocalTime env_late_clock boot
     = (False, emit (Print ''Failed to get the time!'')
                 (boot\<lparr>uptime := 5010, timeInfo := localtime_1_jan_1970 5\<rparr>))
 \<and> fst (getLocalTime env_late_clock GETLOCALTIME_MS (snd (printLocalTime env_late_clock boot)))"
proof -
  let ?e = env_late_clock
  have early: "localtime_r ?e (epoch_at ?e t) = localtime_1_jan_1970 (int (t div 1000))"
    if "t \<le> 5000" for t
  proof -
    from that have "t div 1000 \<le> 5" by simp
    then have "int (t div 1000) < 86400" by simp
    with that show ?thesis by (simp add: env_late_clock_def)
  qed
  have inv: "\<forall>t \<le> 0 + 5000. tm_year (localtime_r ?e (epoch_at ?e t)) \<le> 116"
    by (simp add: early localtime_1_jan_1970_def)
  have "getLocalTime_poll ?e 0 5000 boot
      = (False, boot\<lparr>uptime := uptime boot + 10 * Suc 500,
                      timeInfo := localtime_r ?e (epoch_at ?e (uptime boot + 10 * 500))\<rparr>)"
    using inv by (rule getLocalTime_poll_timeout) (simp_all add: boot_fields)
  then have first: "getLocalTime ?e GETLOCALTIME_MS boot
      = (False, boot\<lparr>uptime := 5010, timeInfo := localtime_1_jan_1970 5\<rparr>)"
    by (simp add: getLocalTime_def GETLOCALTIME_MS_def boot_fields early)
  have p: "printLocalTime ?e boot
      = (False, emit (Print ''Failed to get the time!'')
                  (boot\<lparr>uptime := 5010, timeInfo := localtime_1_jan_1970 5\<rparr>))"
    by (simp add: printLocalTime_no_retry first)
  let ?d = "emit (Print ''Failed to get the time!'')
      (boot\<lparr>uptime := 5010, timeInfo := localtime_1_jan_1970 5\<rparr>)"
  have "tm_year (localtime_r ?e (epoch_at ?e (uptime ?d))) > 116"
    by (simp add: emit_fields env_late_clock_def localtime_15_nov_2023_def)
  from getLocalTime_at_once [OF this, of GETLOCALTIME_MS]
  have second: "fst (getLocalTime ?e GETLOCALTIME_MS ?d)" by simp
  show ?thesis using p second by simp
qed

end
